theory Spec2Isabelle
  imports Main "HOL-Library.AList"
begin

section \<open>JavaScript values, objects and the heap\<close>

text \<open>
  The renderer of the article \<^verbatim>\<open>a-technical-breakdown-of-react-three-fiber.mdx\<close> works on
  plain JavaScript objects. A value is a primitive, a user function (known by its identity), a
  method of the host library (known by its name), a closure the module itself creates (known by
  its place in the source and the value it closes over), or a reference to an object on the heap.
  Numbers are integers, with \<open>NaN\<close> kept apart because it is the one value that is not
  strictly equal to itself.
\<close>

type_synonym ref = nat

datatype jsval =
    Undefined | Null | Bool bool | Num int | NaN | Str string
  | Fn nat | Native string | Closure string jsval | Obj ref

text \<open>
  A call ends with a value or with an exception. The only exception the code under study can
  raise is a \<^verbatim>\<open>TypeError\<close>. \<open>Unmodelled\<close> is not an exception: it is the outcome of a step whose
  result depends on something this model does not hold (the source text of a function).
\<close>

datatype js_error = TypeError | Unmodelled

text \<open>
  An object has the name of its constructor, its own enumerable properties in insertion order,
  the properties it inherits from its prototype (methods and class flags), and, when it is an
  array, its elements.
\<close>

record jsobj =
  ctor :: string
  own :: "(string \<times> jsval) list"
  proto :: "(string \<times> jsval) list"
  elems :: "jsval list"

text \<open>A call into user code or into the host library: callee, receiver, arguments.\<close>

datatype call = Call jsval jsval "jsval list"

text \<open>
  The state of the module: the heap, the allocation counter, the calls made so far (oldest
  first), the module-level map \<^verbatim>\<open>roots\<close> from canvas to the store \<^verbatim>\<open>{ root, state }\<close>,
  and the module-level object \<^verbatim>\<open>hovered\<close>, keyed by \<^verbatim>\<open>uuid\<close>.
\<close>

record world =
  heap :: "ref \<Rightarrow> jsobj option"
  nxt :: ref
  calls :: "call list"
  roots :: "(jsval \<times> jsval) list"
  hovered :: "(string \<times> jsval) list"

definition bindE :: "'e + 'a \<Rightarrow> ('a \<Rightarrow> 'e + 'b) \<Rightarrow> 'e + 'b" where
  "bindE m f = (case m of Inl e \<Rightarrow> Inl e | Inr x \<Rightarrow> f x)"

fun truthy :: "jsval \<Rightarrow> bool" where
  "truthy Undefined = False"
| "truthy Null = False"
| "truthy (Bool b) = b"
| "truthy (Num n) = (n \<noteq> 0)"
| "truthy NaN = False"
| "truthy (Str s) = (s \<noteq> [])"
| "truthy _ = True"

text \<open>\<^verbatim>\<open>a === b\<close>: by value on primitives, by identity on functions and objects.\<close>

definition strict_eq :: "jsval \<Rightarrow> jsval \<Rightarrow> bool" where
  "strict_eq a b = (a \<noteq> NaN \<and> a = b)"

fun digits :: "nat \<Rightarrow> nat \<Rightarrow> string" where
  "digits 0 n = []"
| "digits (Suc f) n =
     (if n < 10 then [char_of (48 + n)] else digits f (n div 10) @ [char_of (48 + n mod 10)])"

text \<open>The text of a value that is neither an object nor a function.\<close>

fun prim_text :: "jsval \<Rightarrow> string option" where
  "prim_text (Str s) = Some s"
| "prim_text Undefined = Some ''undefined''"
| "prim_text Null = Some ''null''"
| "prim_text (Bool b) = Some (if b then ''true'' else ''false'')"
| "prim_text NaN = Some ''NaN''"
| "prim_text (Num n) = Some ((if n < 0 then ''-'' else []) @ digits (Suc (nat \<bar>n\<bar>)) (nat \<bar>n\<bar>))"
| "prim_text _ = None"

text \<open>\<^verbatim>\<open>v[k]\<close>: reading a property of \<^verbatim>\<open>undefined\<close> or \<^verbatim>\<open>null\<close> is a TypeError.\<close>

fun get_prop :: "(ref \<Rightarrow> jsobj option) \<Rightarrow> jsval \<Rightarrow> string \<Rightarrow> js_error + jsval" where
  "get_prop h Undefined k = Inl TypeError"
| "get_prop h Null k = Inl TypeError"
| "get_prop h (Obj r) k =
     (case h r of
        None \<Rightarrow> Inr Undefined
      | Some ob \<Rightarrow>
          (case map_of (own ob) k of
             Some v \<Rightarrow> Inr v
           | None \<Rightarrow> (case map_of (proto ob) k of Some v \<Rightarrow> Inr v | None \<Rightarrow> Inr Undefined)))"
| "get_prop h _ k = Inr Undefined"

text \<open>\<^verbatim>\<open>v[k] = x\<close> (the code is a module, hence strict: only objects take properties).\<close>

fun set_prop :: "world \<Rightarrow> jsval \<Rightarrow> string \<Rightarrow> jsval \<Rightarrow> js_error + world" where
  "set_prop w (Obj r) k x =
     (case heap w r of
        None \<Rightarrow> Inl TypeError
      | Some ob \<Rightarrow> Inr (w\<lparr>heap := (heap w)(r \<mapsto> ob\<lparr>own := AList.update k x (own ob)\<rparr>)\<rparr>))"
| "set_prop w _ k x = Inl TypeError"

text \<open>\<^verbatim>\<open>delete v[k]\<close> removes an own property and nothing else.\<close>

fun delete_prop :: "world \<Rightarrow> jsval \<Rightarrow> string \<Rightarrow> world" where
  "delete_prop w (Obj r) k =
     (case heap w r of
        None \<Rightarrow> w
      | Some ob \<Rightarrow> w\<lparr>heap := (heap w)(r \<mapsto> ob\<lparr>own := AList.delete k (own ob)\<rparr>)\<rparr>)"
| "delete_prop w _ k = w"

definition alloc :: "world \<Rightarrow> jsobj \<Rightarrow> ref \<times> world" where
  "alloc w ob = (nxt w, w\<lparr>heap := (heap w)(nxt w \<mapsto> ob), nxt := Suc (nxt w)\<rparr>)"

definition plain_object :: "(string \<times> jsval) list \<Rightarrow> jsobj" where
  "plain_object ps = \<lparr>ctor = ''Object'', own = ps, proto = [], elems = []\<rparr>"

definition array_object :: "jsval list \<Rightarrow> jsobj" where
  "array_object xs = \<lparr>ctor = ''Array'', own = [], proto = [], elems = xs\<rparr>"

text \<open>\<^verbatim>\<open>Array.isArray(v)\<close> and the elements of an array.\<close>

fun array_of :: "(ref \<Rightarrow> jsobj option) \<Rightarrow> jsval \<Rightarrow> jsval list option" where
  "array_of h (Obj r) =
     (case h r of
        None \<Rightarrow> None
      | Some ob \<Rightarrow> if ctor ob = ''Array'' then Some (elems ob) else None)"
| "array_of h _ = None"

text \<open>
  A property key is a string; any other value used as a key is converted to its text. An object
  with no \<^verbatim>\<open>toString\<close> of its own has the generic object tag as its text, and an array has the
  texts of its elements joined by commas, where \<^verbatim>\<open>undefined\<close> and \<^verbatim>\<open>null\<close> elements give the
  empty text. The text of a function is its source, which the model does not hold; an array
  nested in an array is not followed either.
\<close>

fun elem_text :: "(ref \<Rightarrow> jsobj option) \<Rightarrow> jsval \<Rightarrow> string option" where
  "elem_text h Undefined = Some []"
| "elem_text h Null = Some []"
| "elem_text h (Obj r) =
     (case h r of
        None \<Rightarrow> Some ''[object Object]''
      | Some ob \<Rightarrow> if ctor ob = ''Array'' then None else Some ''[object Object]'')"
| "elem_text h v = prim_text v"

fun join_texts :: "string option list \<Rightarrow> string option" where
  "join_texts [] = Some []"
| "join_texts [t] = t"
| "join_texts (t # ts) =
     (case t of
        None \<Rightarrow> None
      | Some s \<Rightarrow> (case join_texts ts of None \<Rightarrow> None | Some rest \<Rightarrow> Some (s @ '','' @ rest)))"

definition text_or_unmodelled :: "string option \<Rightarrow> js_error + string" where
  "text_or_unmodelled t = (case t of None \<Rightarrow> Inl Unmodelled | Some s \<Rightarrow> Inr s)"

fun to_key :: "(ref \<Rightarrow> jsobj option) \<Rightarrow> jsval \<Rightarrow> js_error + string" where
  "to_key h (Obj r) =
     (case h r of
        None \<Rightarrow> Inr ''[object Object]''
      | Some ob \<Rightarrow>
          if ctor ob = ''Array'' then text_or_unmodelled (join_texts (map (elem_text h) (elems ob)))
          else Inr ''[object Object]'')"
| "to_key h v = text_or_unmodelled (prim_text v)"

fun set_elems :: "world \<Rightarrow> jsval \<Rightarrow> jsval list \<Rightarrow> world" where
  "set_elems w (Obj r) xs =
     (case heap w r of None \<Rightarrow> w | Some ob \<Rightarrow> w\<lparr>heap := (heap w)(r \<mapsto> ob\<lparr>elems := xs\<rparr>)\<rparr>)"
| "set_elems w _ xs = w"

text \<open>\<^verbatim>\<open>xs.indexOf(x)\<close>: the first position strictly equal to \<^verbatim>\<open>x\<close>, or \<open>-1\<close>.\<close>

fun index_of :: "jsval list \<Rightarrow> jsval \<Rightarrow> int" where
  "index_of [] x = -1"
| "index_of (y # ys) x =
     (if strict_eq y x then 0 else (let i = index_of ys x in if i < 0 then i else i + 1))"

text \<open>\<^verbatim>\<open>xs.slice(start, end)\<close>, with a negative index counted from the end.\<close>

definition rel_index :: "nat \<Rightarrow> int \<Rightarrow> nat" where
  "rel_index len i = (if i < 0 then nat (max (int len + i) 0) else min (nat i) len)"

definition js_slice :: "jsval list \<Rightarrow> int \<Rightarrow> int \<Rightarrow> jsval list" where
  "js_slice xs start stop =
     (let s = rel_index (length xs) start; e = rel_index (length xs) stop
      in take (e - s) (drop s xs))"

definition js_slice_from :: "jsval list \<Rightarrow> int \<Rightarrow> jsval list" where
  "js_slice_from xs start = drop (rel_index (length xs) start) xs"

fun callable :: "jsval \<Rightarrow> bool" where
  "callable (Fn n) = True"
| "callable (Native m) = True"
| "callable (Closure m v) = True"
| "callable _ = False"

definition log_call :: "world \<Rightarrow> jsval \<Rightarrow> jsval \<Rightarrow> jsval list \<Rightarrow> world" where
  "log_call w f this args = w\<lparr>calls := calls w @ [Call f this args]\<rparr>"

text \<open>Calling a value that is not a function is a TypeError; otherwise the call is recorded.\<close>

definition invoke_plain :: "world \<Rightarrow> jsval \<Rightarrow> jsval \<Rightarrow> jsval list \<Rightarrow> js_error + world" where
  "invoke_plain w f this args = (if callable f then Inr (log_call w f this args) else Inl TypeError)"

section \<open>The scene graph of the host library\<close>

text \<open>
  \<^verbatim>\<open>Object3D.remove(object)\<close> and \<^verbatim>\<open>Object3D.add(object)\<close> of three.js (r133), which
  \<^verbatim>\<open>appendChild\<close> and \<^verbatim>\<open>removeChild\<close> call: \<^verbatim>\<open>remove\<close> splices the first occurrence of the
  object out of \<^verbatim>\<open>this.children\<close>, clears its \<^verbatim>\<open>parent\<close> and dispatches \<^verbatim>\<open>removed\<close>;
  \<^verbatim>\<open>add\<close> ignores \<^verbatim>\<open>this\<close> itself and whatever is not an \<^verbatim>\<open>Object3D\<close>, detaches the object
  from its former parent, sets \<^verbatim>\<open>parent\<close>, pushes onto \<^verbatim>\<open>this.children\<close> and dispatches
  \<^verbatim>\<open>added\<close>. The library's own event constants are recorded by their type.
\<close>

fun remove_nth :: "nat \<Rightarrow> 'a list \<Rightarrow> 'a list" where
  "remove_nth i xs = take i xs @ drop (Suc i) xs"

definition dispatch_native :: "world \<Rightarrow> jsval \<Rightarrow> string \<Rightarrow> js_error + world" where
  "dispatch_native w object ty =
     bindE (get_prop (heap w) object ''dispatchEvent'')
       (\<lambda>f. invoke_plain w f object [Str ty])"

definition obj3d_remove :: "world \<Rightarrow> jsval \<Rightarrow> jsval \<Rightarrow> js_error + world" where
  "obj3d_remove w this object =
     bindE (get_prop (heap w) this ''children'') (\<lambda>kids.
       case array_of (heap w) kids of
         None \<Rightarrow> Inl TypeError
       | Some xs \<Rightarrow>
           (let index = index_of xs object in
            if index \<noteq> -1 then
              bindE (set_prop w object ''parent'' Null) (\<lambda>w1.
                dispatch_native (set_elems w1 kids (remove_nth (nat index) xs)) object ''removed'')
            else Inr w))"

definition obj3d_add :: "world \<Rightarrow> jsval \<Rightarrow> jsval \<Rightarrow> js_error + world" where
  "obj3d_add w this object =
     (if object = this then Inr w
      else if \<not> truthy object then Inr w
      else bindE (get_prop (heap w) object ''isObject3D'') (\<lambda>flag.
        if \<not> truthy flag then Inr w
        else bindE (get_prop (heap w) object ''parent'') (\<lambda>par.
          bindE (if par = Null then Inr w
                 else bindE (get_prop (heap w) par ''remove'') (\<lambda>f.
                   if f = Native ''Object3D.remove'' then obj3d_remove (log_call w f par [object]) par object
                   else invoke_plain w f par [object])) (\<lambda>w1.
          bindE (set_prop w1 object ''parent'' this) (\<lambda>w2.
          bindE (get_prop (heap w2) this ''children'') (\<lambda>kids.
            case array_of (heap w2) kids of
              None \<Rightarrow> Inl TypeError
            | Some xs \<Rightarrow> dispatch_native (set_elems w2 kids (xs @ [object])) object ''added''))))))"

text \<open>
  \<^verbatim>\<open>this.m(args)\<close>: the property is read, the call recorded, and the two scene-graph methods
  above take effect.
\<close>

definition call_method :: "world \<Rightarrow> jsval \<Rightarrow> string \<Rightarrow> jsval list \<Rightarrow> js_error + world" where
  "call_method w this m args =
     bindE (get_prop (heap w) this m) (\<lambda>f.
       bindE (invoke_plain w f this args) (\<lambda>w1.
         if f = Native ''Object3D.add'' then obj3d_add w1 this (case args of [] \<Rightarrow> Undefined | a # _ \<Rightarrow> a)
         else if f = Native ''Object3D.remove'' then obj3d_remove w1 this (case args of [] \<Rightarrow> Undefined | a # _ \<Rightarrow> a)
         else Inr w1))"

section \<open>Scene mutator\<close>

text \<open>
  \<^verbatim>\<open>
  const appendChild = (parentInstance, child) => {
    if (!child) return;
    if (child.attach && parentInstance[child.attach] !== undefined) {
      parentInstance[child.attach] = child;
    } else {
      parentInstance.add(child);
    }
  };
  \<close>
\<close>

text \<open>
  \<^verbatim>\<open>appendChild\<close> and \<^verbatim>\<open>removeChild\<close> start with the same test,
  \<^verbatim>\<open>child.attach && parentInstance[child.attach] !== undefined\<close>. \<open>attach_slot\<close> is that test: it
  returns the key of the slot when the test holds and nothing when it does not.
\<close>

definition attach_slot :: "world \<Rightarrow> jsval \<Rightarrow> jsval \<Rightarrow> js_error + string option" where
  "attach_slot w parentInstance child =
     bindE (get_prop (heap w) child ''attach'') (\<lambda>attach.
       if truthy attach then
         bindE (to_key (heap w) attach) (\<lambda>key.
           bindE (get_prop (heap w) parentInstance key) (\<lambda>slot.
             Inr (if slot \<noteq> Undefined then Some key else None)))
       else Inr None)"

definition appendChild :: "world \<Rightarrow> jsval \<Rightarrow> jsval \<Rightarrow> js_error + world" where
  "appendChild w parentInstance child =
     (if \<not> truthy child then Inr w
      else bindE (attach_slot w parentInstance child) (\<lambda>slot.
        case slot of
          Some key \<Rightarrow> set_prop w parentInstance key child
        | None \<Rightarrow> call_method w parentInstance ''add'' [child]))"

text \<open>
  \<^verbatim>\<open>for (const property in child)\<close> visits the keys of the own enumerable properties, then
  the inherited ones that are not shadowed. A child is an object or a falsy value in every call
  the reconciler makes; the index keys of a string or an array are not modelled.
\<close>

fun for_in_keys :: "(ref \<Rightarrow> jsobj option) \<Rightarrow> jsval \<Rightarrow> string list" where
  "for_in_keys h (Obj r) =
     (case h r of
        None \<Rightarrow> []
      | Some ob \<Rightarrow> map fst (own ob) @ filter (\<lambda>k. k \<notin> set (map fst (own ob))) (map fst (proto ob)))"
| "for_in_keys h _ = []"

text \<open>
  The loop of \<^verbatim>\<open>removeChild\<close>. The loop variable \<^verbatim>\<open>property\<close> is the key, a string:
  \<^verbatim>\<open>
    for (const property in child) {
      if (property.dispose) property.dispose();
      delete child[property];
    }
  \<close>
\<close>

fun dispose_properties :: "world \<Rightarrow> jsval \<Rightarrow> string list \<Rightarrow> js_error + world" where
  "dispose_properties w child [] = Inr w"
| "dispose_properties w child (property # rest) =
     bindE (get_prop (heap w) (Str property) ''dispose'') (\<lambda>d.
       bindE (if truthy d then call_method w (Str property) ''dispose'' [] else Inr w) (\<lambda>w1.
         dispose_properties (delete_prop w1 child property) child rest))"

text \<open>
  \<^verbatim>\<open>
  const removeChild = (parentInstance, child) => {
    if (!child) return;
    if (child.attach && parentInstance[child.attach] !== undefined) {
      parentInstance[child.attach] = null;
    } else {
      parentInstance.remove(child);
    }
    if (child.type !== 'Scene') {
      if (child.dispose) child.dispose();
      for (const property in child) { ... }
    }
  };
  \<close>
  The last block, which disposes of the child, is \<open>dispose_child\<close>.
\<close>

definition dispose_child :: "world \<Rightarrow> jsval \<Rightarrow> js_error + world" where
  "dispose_child w child =
     bindE (get_prop (heap w) child ''type'') (\<lambda>ty.
       if \<not> strict_eq ty (Str ''Scene'') then
         bindE (get_prop (heap w) child ''dispose'') (\<lambda>d.
           bindE (if truthy d then call_method w child ''dispose'' [] else Inr w) (\<lambda>w1.
             dispose_properties w1 child (for_in_keys (heap w1) child)))
       else Inr w)"

definition removeChild :: "world \<Rightarrow> jsval \<Rightarrow> jsval \<Rightarrow> js_error + world" where
  "removeChild w parentInstance child =
     (if \<not> truthy child then Inr w
      else bindE (attach_slot w parentInstance child) (\<lambda>slot.
        bindE (case slot of
                 Some key \<Rightarrow> set_prop w parentInstance key Null
               | None \<Rightarrow> call_method w parentInstance ''remove'' [child]) (\<lambda>w1.
          dispose_child w1 child)))"

text \<open>
  \<^verbatim>\<open>
  insertBefore(parentInstance, child, beforeChild) {
    if (!child) return;
    child.parent = parentInstance;
    const index = parentInstance.children.indexOf(beforeChild);
    parentInstance.children = [
      ...parentInstance.children.slice(0, index),
      child,
      ...parentInstance.children.slice(index),
    ];
    child.dispatchEvent({ type: 'added' });
  }
  \<close>
  \<^verbatim>\<open>children\<close> is an array in every \<^verbatim>\<open>Object3D\<close>; anything else has no \<^verbatim>\<open>indexOf\<close> here.
\<close>

definition insertBefore :: "world \<Rightarrow> jsval \<Rightarrow> jsval \<Rightarrow> jsval \<Rightarrow> js_error + world" where
  "insertBefore w parentInstance child beforeChild =
     (if \<not> truthy child then Inr w
      else bindE (set_prop w child ''parent'' parentInstance) (\<lambda>w1.
        bindE (get_prop (heap w1) parentInstance ''children'') (\<lambda>kids.
          case array_of (heap w1) kids of
            None \<Rightarrow> Inl TypeError
          | Some xs \<Rightarrow>
              (let index = index_of xs beforeChild;
                   (a, w2) = alloc w1 (array_object (js_slice xs 0 index @ [child] @ js_slice_from xs index))
               in bindE (set_prop w2 parentInstance ''children'' (Obj a)) (\<lambda>w3.
                    let (e, w4) = alloc w3 (plain_object [(''type'', Str ''added'')])
                    in call_method w4 child ''dispatchEvent'' [Obj e])))))"

section \<open>Property applier\<close>

text \<open>
  A props object is the list of its entries, in key order. \<^verbatim>\<open>props[key]\<close> is
  \<^verbatim>\<open>undefined\<close> where the key is absent.
\<close>

type_synonym props = "(string \<times> jsval) list"

definition lookup :: "props \<Rightarrow> string \<Rightarrow> jsval" where
  "lookup ps k = (case map_of ps k of None \<Rightarrow> Undefined | Some v \<Rightarrow> v)"

text \<open>
  \<^verbatim>\<open>
  const pruneKeys = (obj, ...keys) => {
    const keysToRemove = new Set(keys.flat());
    return Object.fromEntries(
      Object.entries(obj).filter(([key]) => !keysToRemove.has(key)));
  };
  \<close>
\<close>

definition pruneKeys :: "props \<Rightarrow> string list \<Rightarrow> props" where
  "pruneKeys obj keys = filter (\<lambda>(key, v). key \<notin> set keys) obj"

text \<open>\<^verbatim>\<open>key.startsWith('on')\<close> and \<^verbatim>\<open>typeof v === 'function'\<close>.\<close>

fun starts_with_on :: "string \<Rightarrow> bool" where
  "starts_with_on (a # b # rest) = (a = CHR ''o'' \<and> b = CHR ''n'')"
| "starts_with_on _ = False"

definition identical_keys :: "props \<Rightarrow> props \<Rightarrow> string list" where
  "identical_keys newProps oldProps =
     filter (\<lambda>key. strict_eq (lookup newProps key) (lookup oldProps key)) (map fst newProps)"

definition handler_keys :: "props \<Rightarrow> string list" where
  "handler_keys newProps =
     filter (\<lambda>key. callable (lookup newProps key) \<and> starts_with_on key) (map fst newProps)"

definition applicable_props :: "props \<Rightarrow> props \<Rightarrow> props" where
  "applicable_props newProps oldProps =
     pruneKeys newProps
       (identical_keys newProps oldProps @ handler_keys newProps @ [''children'', ''key'', ''ref''])"

text \<open>\<^verbatim>\<open>v.constructor.name\<close>, a TypeError on \<^verbatim>\<open>undefined\<close> and \<^verbatim>\<open>null\<close>.\<close>

fun constructor_name :: "(ref \<Rightarrow> jsobj option) \<Rightarrow> jsval \<Rightarrow> js_error + string" where
  "constructor_name h Undefined = Inl TypeError"
| "constructor_name h Null = Inl TypeError"
| "constructor_name h (Bool b) = Inr ''Boolean''"
| "constructor_name h (Num n) = Inr ''Number''"
| "constructor_name h NaN = Inr ''Number''"
| "constructor_name h (Str s) = Inr ''String''"
| "constructor_name h (Fn n) = Inr ''Function''"
| "constructor_name h (Native m) = Inr ''Function''"
| "constructor_name h (Closure m v) = Inr ''Function''"
| "constructor_name h (Obj r) = (case h r of None \<Rightarrow> Inr ''Object'' | Some ob \<Rightarrow> Inr (ctor ob))"

text \<open>\<^verbatim>\<open>v?.k\<close>.\<close>

definition opt_get :: "(ref \<Rightarrow> jsobj option) \<Rightarrow> jsval \<Rightarrow> string \<Rightarrow> js_error + jsval" where
  "opt_get h v k = (if v = Undefined \<or> v = Null then Inr Undefined else get_prop h v k)"

text \<open>
  The body of the loop over the applicable props:
  \<^verbatim>\<open>
      const target = instance[key];
      const isColor = target instanceof THREE.Color;
      if (target?.set) {
        if (target.constructor.name === value.constructor.name) {
          target.copy(value);
        } else if (Array.isArray(value)) {
          target.set(...value);
        } else if (!isColor && target?.setScalar) {
          target.setScalar(value);
        } else {
          target.set(value);
        }
        if (isColor) target.convertSRGBToLinear();
      } else {
        instance[key] = value;
      }
  \<close>
\<close>

definition apply_prop :: "world \<Rightarrow> jsval \<Rightarrow> string \<Rightarrow> jsval \<Rightarrow> js_error + world" where
  "apply_prop w instance key val =
     bindE (get_prop (heap w) instance key) (\<lambda>target.
       let isColor = (constructor_name (heap w) target = Inr ''Color'') in
       bindE (opt_get (heap w) target ''set'') (\<lambda>setter.
         if truthy setter then
           bindE (constructor_name (heap w) target) (\<lambda>tn.
           bindE (constructor_name (heap w) val) (\<lambda>vn.
           bindE (if tn = vn then call_method w target ''copy'' [val]
                  else (case array_of (heap w) val of
                          Some xs \<Rightarrow> call_method w target ''set'' xs
                        | None \<Rightarrow>
                            bindE (opt_get (heap w) target ''setScalar'') (\<lambda>ss.
                              if \<not> isColor \<and> truthy ss then call_method w target ''setScalar'' [val]
                              else call_method w target ''set'' [val]))) (\<lambda>w1.
             if isColor then call_method w1 target ''convertSRGBToLinear'' [] else Inr w1)))
         else set_prop w instance key val))"

fun apply_each :: "world \<Rightarrow> jsval \<Rightarrow> props \<Rightarrow> js_error + world" where
  "apply_each w instance [] = Inr w"
| "apply_each w instance ((key, val) # rest) =
     bindE (apply_prop w instance key val) (\<lambda>w1. apply_each w1 instance rest)"

text \<open>
  The last block of \<^verbatim>\<open>applyProps\<close>:
  \<^verbatim>\<open>
    instance.__handlers = handlers.reduce(
      (acc, key) => ({ ...acc, [key]: newProps[key] }), {});
  \<close>
\<close>

definition collected_handlers :: "props \<Rightarrow> props" where
  "collected_handlers newProps = map (\<lambda>key. (key, lookup newProps key)) (handler_keys newProps)"

definition store_handlers :: "world \<Rightarrow> jsval \<Rightarrow> props \<Rightarrow> js_error + world" where
  "store_handlers w instance newProps =
     (let (h, w1) = alloc w (plain_object (collected_handlers newProps))
      in set_prop w1 instance ''__handlers'' (Obj h))"

text \<open>
  \<^verbatim>\<open>
  const applyProps = (instance, newProps, oldProps = {}) => {
    const identical = Object.keys(newProps).filter(key => newProps[key] === oldProps[key]);
    const handlers = Object.keys(newProps).filter(
      key => typeof newProps[key] === 'function' && key.startsWith('on'));
    const props = pruneKeys(newProps, [...identical, ...handlers, 'children', 'key', 'ref']);
    if (Object.keys(props).length) { Object.entries(props).forEach(...) }
    if (handlers.length) { instance.__handlers = ... }
  };
  \<close>
\<close>

definition applyProps :: "world \<Rightarrow> jsval \<Rightarrow> props \<Rightarrow> props \<Rightarrow> js_error + world" where
  "applyProps w instance newProps oldProps =
     (let handlers = handler_keys newProps;
          props = applicable_props newProps oldProps
      in bindE (if props \<noteq> [] then apply_each w instance props else Inr w) (\<lambda>w1.
           if handlers \<noteq> [] then store_handlers w1 instance newProps else Inr w1))"

section \<open>Render loop\<close>





section \<open>Event manager\<close>

text \<open>
  \<^verbatim>\<open>
  const EVENT_TYPES = {
    click: ['onClick', false],
    dblclick: ['onDoubleClick', false],
    pointerup: ['onPointerUp', true],
    pointerdown: ['onPointerDown', true],
    mousemove: ['hoverEvent', true],
  };
  \<close>
\<close>

definition EVENT_TYPES :: "(string \<times> string \<times> bool) list" where
  "EVENT_TYPES =
     [(''click'', ''onClick'', False), (''dblclick'', ''onDoubleClick'', False),
      (''pointerup'', ''onPointerUp'', True), (''pointerdown'', ''onPointerDown'', True),
      (''mousemove'', ''hoverEvent'', True)]"

text \<open>\<^verbatim>\<open>if (handlers.name) handlers.name(event);\<close>\<close>

definition fire :: "world \<Rightarrow> jsval \<Rightarrow> string \<Rightarrow> jsval \<Rightarrow> js_error + world" where
  "fire w handlers name event =
     bindE (get_prop (heap w) handlers name) (\<lambda>f.
       if truthy f then invoke_plain w f handlers [event] else Inr w)"

text \<open>
  \<^verbatim>\<open>handleEvent\<close> converts the pointer position and asks the host's raycaster for the
  intersections; the objects hit, in the raycaster's order, are the parameter \<open>intersects\<close>
  here. The first loop:
  \<^verbatim>\<open>
      intersects.forEach(intersect => {
        const { object } = intersect;
        const handlers = object.__handlers;
        if (isHoverEvent && !hovered[object.uuid]) {
          hovered[object.uuid] = object;
          if (handlers.onHover) handlers.onHover(event);
          if (handlers.onPointerOver) handlers.onPointerOver(event);
        } else if (!isHoverEvent && handlers[type]) {
          handlers[type](event);
        }
      });
  \<close>
\<close>

fun dispatch_intersects :: "world \<Rightarrow> bool \<Rightarrow> jsval \<Rightarrow> string \<Rightarrow> jsval list \<Rightarrow> js_error + world" where
  "dispatch_intersects w isHoverEvent event type [] = Inr w"
| "dispatch_intersects w isHoverEvent event type (object # rest) =
     bindE (get_prop (heap w) object ''__handlers'') (\<lambda>handlers.
     bindE (if isHoverEvent then
              bindE (get_prop (heap w) object ''uuid'') (\<lambda>uuid.
              bindE (to_key (heap w) uuid) (\<lambda>key.
                if \<not> truthy (lookup (hovered w) key) then
                  bindE (fire (w\<lparr>hovered := AList.update key object (hovered w)\<rparr>)
                           handlers ''onHover'' event) (\<lambda>w1.
                    fire w1 handlers ''onPointerOver'' event)
                else Inr w))
            else fire w handlers type event) (\<lambda>w2.
       dispatch_intersects w2 isHoverEvent event type rest))"

text \<open>
  The second loop, over a snapshot of the values of \<^verbatim>\<open>hovered\<close>:
  \<^verbatim>\<open>
        Object.values(hovered).forEach(object => {
          const handlers = object.__handlers;
          if (!intersects.length || !intersects.find(i => i.object === object)) {
            delete hovered[object.uuid];
            if (handlers.onPointerOut) handlers.onPointerOut(event);
          }
        });
  \<close>
\<close>

fun clean_hovered :: "world \<Rightarrow> jsval list \<Rightarrow> jsval \<Rightarrow> jsval list \<Rightarrow> js_error + world" where
  "clean_hovered w intersects event [] = Inr w"
| "clean_hovered w intersects event (object # rest) =
     bindE (get_prop (heap w) object ''__handlers'') (\<lambda>handlers.
     bindE (if intersects = [] \<or> find (\<lambda>i. strict_eq i object) intersects = None then
              bindE (get_prop (heap w) object ''uuid'') (\<lambda>uuid.
              bindE (to_key (heap w) uuid) (\<lambda>key.
                fire (w\<lparr>hovered := AList.delete key (hovered w)\<rparr>)
                  handlers ''onPointerOut'' event))
            else Inr w) (\<lambda>w1.
       clean_hovered w1 intersects event rest))"

definition handleEvent :: "world \<Rightarrow> jsval \<Rightarrow> jsval list \<Rightarrow> jsval \<Rightarrow> string \<Rightarrow> js_error + world" where
  "handleEvent w state intersects event type =
     (let isHoverEvent = (type = ''hoverEvent'') in
      bindE (dispatch_intersects w isHoverEvent event type intersects) (\<lambda>w1.
        if isHoverEvent then clean_hovered w1 intersects event (map snd (hovered w1))
        else Inr w1))"

text \<open>
  \<^verbatim>\<open>
    connect(canvas, state) {
      state.mouse = new THREE.Vector2();
      state.raycaster = new THREE.Raycaster();
      const handleEvent = ...
      canvas.__listeners = {};
      Object.entries(EVENT_TYPES).forEach(([name, [type, passive]]) => {
        const listener = event => handleEvent(event, type);
        canvas.addEventListener(name, listener, { passive });
        canvas.__listeners[name] = listener;
      });
    }
  \<close>
\<close>

definition host_object :: "string \<Rightarrow> props \<Rightarrow> props \<Rightarrow> jsobj" where
  "host_object cname ps methods = \<lparr>ctor = cname, own = ps, proto = methods, elems = []\<rparr>"

fun register_listeners :: "world \<Rightarrow> jsval \<Rightarrow> jsval \<Rightarrow> (string \<times> string \<times> bool) list \<Rightarrow> js_error + world" where
  "register_listeners w canvas state [] = Inr w"
| "register_listeners w canvas state ((name, type, passive) # rest) =
     (let listener = Closure type state;
          (opts, w1) = alloc w (plain_object [(''passive'', Bool passive)])
      in bindE (call_method w1 canvas ''addEventListener'' [Str name, listener, Obj opts]) (\<lambda>w2.
         bindE (get_prop (heap w2) canvas ''__listeners'') (\<lambda>listeners.
         bindE (set_prop w2 listeners name listener) (\<lambda>w3.
           register_listeners w3 canvas state rest))))"

definition connect :: "world \<Rightarrow> jsval \<Rightarrow> jsval \<Rightarrow> js_error + world" where
  "connect w canvas state =
     (let (mouse, w1) = alloc w (host_object ''Vector2'' [(''x'', Num 0), (''y'', Num 0)]
                                  [(''set'', Native ''Vector2.set''), (''copy'', Native ''Vector2.copy''),
                                   (''setScalar'', Native ''Vector2.setScalar'')])
      in bindE (set_prop w1 state ''mouse'' (Obj mouse)) (\<lambda>w2.
         let (raycaster, w3) = alloc w2 (host_object ''Raycaster'' []
                                  [(''setFromCamera'', Native ''Raycaster.setFromCamera''),
                                   (''intersectObjects'', Native ''Raycaster.intersectObjects'')])
         in bindE (set_prop w3 state ''raycaster'' (Obj raycaster)) (\<lambda>w4.
            let (listeners, w5) = alloc w4 (plain_object [])
            in bindE (set_prop w5 canvas ''__listeners'' (Obj listeners)) (\<lambda>w6.
                 register_listeners w6 canvas state EVENT_TYPES))))"

text \<open>
  \<^verbatim>\<open>
    disconnect(canvas) {
      const listeners = canvas.__listeners;
      Object.entries(listeners).forEach(([name, listener]) => {
        canvas.removeEventListener(name, listener);
      });
      delete canvas.__listeners;
    }
  \<close>
  \<^verbatim>\<open>Object.entries\<close> of \<^verbatim>\<open>undefined\<close> or \<^verbatim>\<open>null\<close> is a TypeError.
\<close>

fun object_entries :: "(ref \<Rightarrow> jsobj option) \<Rightarrow> jsval \<Rightarrow> js_error + props" where
  "object_entries h Undefined = Inl TypeError"
| "object_entries h Null = Inl TypeError"
| "object_entries h (Obj r) = (case h r of None \<Rightarrow> Inr [] | Some ob \<Rightarrow> Inr (own ob))"
| "object_entries h _ = Inr []"

fun remove_listeners :: "world \<Rightarrow> jsval \<Rightarrow> props \<Rightarrow> js_error + world" where
  "remove_listeners w canvas [] = Inr w"
| "remove_listeners w canvas ((name, listener) # rest) =
     bindE (call_method w canvas ''removeEventListener'' [Str name, listener]) (\<lambda>w1.
       remove_listeners w1 canvas rest)"

definition disconnect :: "world \<Rightarrow> jsval \<Rightarrow> js_error + world" where
  "disconnect w canvas =
     bindE (get_prop (heap w) canvas ''__listeners'') (\<lambda>listeners.
     bindE (object_entries (heap w) listeners) (\<lambda>entries.
     bindE (remove_listeners w canvas entries) (\<lambda>w1.
       Inr (delete_prop w1 canvas ''__listeners''))))"

section \<open>Root lifecycle\<close>

text \<open>
  The options of \<^verbatim>\<open>render\<close>, destructured as \<^verbatim>\<open>{ size, gl, camera, ...props }\<close>; an
  absent \<^verbatim>\<open>gl\<close> or \<^verbatim>\<open>camera\<close> is \<open>None\<close>.
\<close>

record options =
  opt_size :: jsval
  opt_gl :: "props option"
  opt_camera :: "props option"
  opt_props :: props

definition roots_get :: "world \<Rightarrow> jsval \<Rightarrow> jsval" where
  "roots_get w canvas = (case map_of (roots w) canvas of None \<Rightarrow> Undefined | Some store \<Rightarrow> store)"

text \<open>\<^verbatim>\<open>Object.assign(target, source)\<close> and \<^verbatim>\<open>{ ...base, ...extra }\<close>.\<close>

fun assign_all :: "world \<Rightarrow> jsval \<Rightarrow> props \<Rightarrow> js_error + world" where
  "assign_all w target [] = Inr w"
| "assign_all w target ((k, v) # rest) = bindE (set_prop w target k v) (\<lambda>w1. assign_all w1 target rest)"

definition spread :: "props \<Rightarrow> props \<Rightarrow> props" where
  "spread base extra = fold (\<lambda>(k, v). AList.update k v) extra base"

text \<open>
  \<^verbatim>\<open>
    if (!size) {
      size = {
        width: canvas.parentElement?.clientWidth || 0,
        height: canvas.parentElement?.clientHeight || 0,
      };
    }
  \<close>
\<close>

definition or_zero :: "jsval \<Rightarrow> jsval" where
  "or_zero v = (if truthy v then v else Num 0)"

definition infer_size :: "world \<Rightarrow> jsval \<Rightarrow> jsval \<Rightarrow> js_error + jsval \<times> world" where
  "infer_size w canvas size0 =
     (if truthy size0 then Inr (size0, w)
      else bindE (get_prop (heap w) canvas ''parentElement'') (\<lambda>pe.
           bindE (opt_get (heap w) pe ''clientWidth'') (\<lambda>cw.
           bindE (opt_get (heap w) pe ''clientHeight'') (\<lambda>ch.
             let (s, w1) = alloc w (plain_object [(''width'', or_zero cw), (''height'', or_zero ch)])
             in Inr (Obj s, w1)))))"

text \<open>
  The objects the host library constructs. Only the fields and methods the module reads,
  writes or calls are kept; every construction is recorded as a call.
\<close>

definition object3d_methods :: props where
  "object3d_methods =
     [(''isObject3D'', Bool True), (''add'', Native ''Object3D.add''),
      (''remove'', Native ''Object3D.remove''),
      (''dispatchEvent'', Native ''EventDispatcher.dispatchEvent'')]"

definition object3d :: "string \<Rightarrow> props \<Rightarrow> ref \<Rightarrow> jsobj" where
  "object3d ty ps kids =
     host_object ty ([(''type'', Str ty), (''parent'', Null), (''children'', Obj kids)] @ ps)
       object3d_methods"

definition new_renderer :: "world \<Rightarrow> props \<Rightarrow> ref \<times> world" where
  "new_renderer w params =
     (let (ps, w1) = alloc w (plain_object params);
          (r, w2) = alloc w1 (host_object ''WebGLRenderer'' []
                      [(''setAnimationLoop'', Native ''WebGLRenderer.setAnimationLoop''),
                       (''forceContextLoss'', Native ''WebGLRenderer.forceContextLoss''),
                       (''dispose'', Native ''WebGLRenderer.dispose''),
                       (''render'', Native ''WebGLRenderer.render''),
                       (''setSize'', Native ''WebGLRenderer.setSize'')])
      in (r, log_call w2 (Native ''new WebGLRenderer'') (Obj r) [Obj ps]))"

definition new_camera :: "world \<Rightarrow> ref \<times> world" where
  "new_camera w =
     (let (pos, w1) = alloc w (host_object ''Vector3'' [(''x'', Num 0), (''y'', Num 0), (''z'', Num 0)]
                          [(''set'', Native ''Vector3.set''), (''copy'', Native ''Vector3.copy''),
                           (''setScalar'', Native ''Vector3.setScalar'')]);
          (rot, w2) = alloc w1 (host_object ''Euler'' [(''x'', Num 0), (''y'', Num 0), (''z'', Num 0)]
                          [(''set'', Native ''Euler.set''), (''copy'', Native ''Euler.copy'')]);
          (kids, w3) = alloc w2 (array_object []);
          (c, w4) = alloc w3 ((object3d ''PerspectiveCamera''
                          [(''position'', Obj pos), (''rotation'', Obj rot), (''aspect'', Num 0)] kids)
                        \<lparr>proto := object3d_methods @
                            [(''lookAt'', Native ''Object3D.lookAt''),
                             (''updateProjectionMatrix'', Native ''PerspectiveCamera.updateProjectionMatrix'')]\<rparr>)
      in (c, log_call w4 (Native ''new PerspectiveCamera'') (Obj c) []))"

definition new_scene :: "world \<Rightarrow> ref \<times> world" where
  "new_scene w =
     (let (kids, w1) = alloc w (array_object []);
          (s, w2) = alloc w1 (object3d ''Scene'' [] kids)
      in (s, log_call w2 (Native ''new Scene'') (Obj s) []))"

text \<open>
  The event manager handed to \<^verbatim>\<open>render\<close> is pluggable. The module's own \<^verbatim>\<open>events\<close>
  object carries \<^verbatim>\<open>connect\<close> and \<^verbatim>\<open>disconnect\<close> above; any other manager is user code.
\<close>

definition events_object :: jsobj where
  "events_object =
     plain_object [(''connect'', Native ''events.connect''), (''disconnect'', Native ''events.disconnect'')]"

definition events_connect :: "world \<Rightarrow> jsval \<Rightarrow> jsval \<Rightarrow> jsval \<Rightarrow> js_error + world" where
  "events_connect w events canvas state =
     bindE (get_prop (heap w) events ''connect'') (\<lambda>f.
       bindE (invoke_plain w f events [canvas, state]) (\<lambda>w1.
         if f = Native ''events.connect'' then connect w1 canvas state else Inr w1))"

definition events_disconnect :: "world \<Rightarrow> jsval \<Rightarrow> jsval \<Rightarrow> js_error + world" where
  "events_disconnect w events canvas =
     bindE (get_prop (heap w) events ''disconnect'') (\<lambda>f.
       bindE (invoke_plain w f events [canvas]) (\<lambda>w1.
         if f = Native ''events.disconnect'' then disconnect w1 canvas else Inr w1))"

text \<open>
  The block \<^verbatim>\<open>if (!root) { ... }\<close> of \<^verbatim>\<open>render\<close>: renderer, camera, scene, container,
  event manager, subscriber list and animation loop, in the order of the source. The encodings
  \<^verbatim>\<open>THREE.sRGBEncoding\<close> and \<^verbatim>\<open>THREE.ACESFilmicToneMapping\<close> are the constants 3001 and 4.
\<close>

definition init_root :: "world \<Rightarrow> jsval \<Rightarrow> jsval \<Rightarrow> options \<Rightarrow> js_error + jsval \<times> world" where
  "init_root w canvas state opts =
     (let (gl, w1) = new_renderer w
                       (spread [(''canvas'', canvas), (''powerPreference'', Str ''high-performance''),
                                (''antialias'', Bool True), (''alpha'', Bool True)]
                          (case opt_gl opts of None \<Rightarrow> [] | Some g \<Rightarrow> g))
      in bindE (set_prop w1 state ''gl'' (Obj gl)) (\<lambda>w2.
         bindE (case opt_gl opts of None \<Rightarrow> Inr w2 | Some g \<Rightarrow> applyProps w2 (Obj gl) g []) (\<lambda>w3.
         bindE (set_prop w3 (Obj gl) ''outputEncoding'' (Num 3001)) (\<lambda>w4.
         bindE (set_prop w4 (Obj gl) ''toneMapping'' (Num 4)) (\<lambda>w5.
         let (cam, w6) = new_camera w5
         in bindE (set_prop w6 state ''camera'' (Obj cam)) (\<lambda>w7.
            bindE (get_prop (heap w7) (Obj cam) ''position'') (\<lambda>pos.
            bindE (set_prop w7 pos ''z'' (Num 5)) (\<lambda>w8.
            bindE (case opt_camera opts of None \<Rightarrow> Inr w8 | Some c \<Rightarrow> applyProps w8 (Obj cam) c []) (\<lambda>w9.
            bindE (if truthy (case opt_camera opts of None \<Rightarrow> Undefined | Some c \<Rightarrow> lookup c ''rotation'')
                   then Inr w9
                   else call_method w9 (Obj cam) ''lookAt'' [Num 0, Num 0, Num 0]) (\<lambda>w10.
            let (scene, w11) = new_scene w10
            in bindE (set_prop w11 state ''scene'' (Obj scene)) (\<lambda>w12.
               let (root, w13) = alloc w12 (plain_object [(''containerInfo'', Obj scene)]);
                   w14 = log_call w13 (Native ''reconciler.createContainer'') Undefined
                           [Obj scene, Num 1, Bool False, Null]
               in bindE (get_prop (heap w14) state ''events'') (\<lambda>events.
                  bindE (if truthy events then events_connect w14 events canvas state else Inr w14) (\<lambda>w15.
                  let (subs, w16) = alloc w15 (array_object [])
                  in bindE (set_prop w16 state ''subscribed'' (Obj subs)) (\<lambda>w17.
                     bindE (set_prop w17 state ''subscribe'' (Closure ''subscribe'' state)) (\<lambda>w18.
                     bindE (call_method w18 (Obj gl) ''setAnimationLoop'' [Closure ''animationLoop'' state]) (\<lambda>w19.
                       Inr (Obj root, w19)))))))))))))))))"

text \<open>
  \<^verbatim>\<open>size.width / size.height\<close>: floating point is not modelled; the quotient is truncated,
  and a zero divisor gives \<open>NaN\<close>.
\<close>

fun js_div :: "jsval \<Rightarrow> jsval \<Rightarrow> jsval" where
  "js_div (Num a) (Num b) = (if b = 0 then NaN else Num (a div b))"
| "js_div _ _ = NaN"

text \<open>
  \<^verbatim>\<open>render(element, canvas, { size, gl, camera, ...props })\<close>. The state is
  \<^verbatim>\<open>Object.assign(store?.state || {}, { ...props, size })\<close>; the root is initiated when the
  canvas has none; then the renderer is resized, the store is written to \<^verbatim>\<open>roots\<close> and the
  element is handed to the reconciler, whose work is recorded as a call. The result is the state.
\<close>

definition render :: "world \<Rightarrow> jsval \<Rightarrow> jsval \<Rightarrow> options \<Rightarrow> js_error + jsval \<times> world" where
  "render w element canvas opts =
     bindE (infer_size w canvas (opt_size opts)) (\<lambda>(size, w1).
       let store = roots_get w1 canvas in
       bindE (opt_get (heap w1) store ''root'') (\<lambda>root0.
       bindE (opt_get (heap w1) store ''state'') (\<lambda>state0.
         let (state, w2) = (if truthy state0 then (state0, w1)
                            else (let (s, w') = alloc w1 (plain_object []) in (Obj s, w')))
         in bindE (assign_all w2 state (opt_props opts @ [(''size'', size)])) (\<lambda>w3.
            bindE (if \<not> truthy root0 then init_root w3 canvas state opts else Inr (root0, w3)) (\<lambda>(root, w4).
            bindE (get_prop (heap w4) state ''gl'') (\<lambda>gl.
            bindE (get_prop (heap w4) size ''width'') (\<lambda>width.
            bindE (get_prop (heap w4) size ''height'') (\<lambda>height.
            bindE (call_method w4 gl ''setSize'' [width, height]) (\<lambda>w5.
            bindE (get_prop (heap w5) state ''camera'') (\<lambda>camera.
            bindE (set_prop w5 camera ''aspect'' (js_div width height)) (\<lambda>w6.
            bindE (call_method w6 camera ''updateProjectionMatrix'' []) (\<lambda>w7.
              let (st, w8) = alloc w7 (plain_object [(''root'', root), (''state'', state)]);
                  w9 = w8\<lparr>roots := AList.update canvas (Obj st) (roots w8)\<rparr>
              in Inr (state, log_call w9 (Native ''reconciler.updateContainer'') Undefined
                               [element, root, Null])))))))))))))"

text \<open>
  \<^verbatim>\<open>
  const unmountComponentAtNode = canvas => {
    const store = roots.get(canvas);
    if (!store) return;
    const { root, state } = store;
    reconciler.updateContainer(null, root, null, () => {
      if (state.events) state.events.disconnect(canvas);
      state.renderer.setAnimationLoop(null);
      state.renderer.forceContextLoss();
      state.renderer.dispose();
      roots.delete(canvas);
    });
  };
  \<close>
  The reconciler runs the callback once the tree is unmounted; the model runs it at once, the
  earliest it can run.
\<close>

definition disconnect_events :: "world \<Rightarrow> jsval \<Rightarrow> jsval \<Rightarrow> js_error + world" where
  "disconnect_events w canvas state =
     bindE (get_prop (heap w) state ''events'') (\<lambda>events.
       if truthy events then events_disconnect w events canvas else Inr w)"

definition clean_up_renderer :: "world \<Rightarrow> jsval \<Rightarrow> js_error + world" where
  "clean_up_renderer w state =
     bindE (get_prop (heap w) state ''renderer'') (\<lambda>r1.
     bindE (call_method w r1 ''setAnimationLoop'' [Null]) (\<lambda>w1.
     bindE (get_prop (heap w1) state ''renderer'') (\<lambda>r2.
     bindE (call_method w1 r2 ''forceContextLoss'' []) (\<lambda>w2.
     bindE (get_prop (heap w2) state ''renderer'') (\<lambda>r3.
       call_method w2 r3 ''dispose'' [])))))"

definition unmount_callback :: "world \<Rightarrow> jsval \<Rightarrow> jsval \<Rightarrow> js_error + world" where
  "unmount_callback w canvas state =
     bindE (disconnect_events w canvas state) (\<lambda>w1.
     bindE (clean_up_renderer w1 state) (\<lambda>w2.
       Inr (w2\<lparr>roots := AList.delete canvas (roots w2)\<rparr>)))"

definition unmountComponentAtNode :: "world \<Rightarrow> jsval \<Rightarrow> js_error + world" where
  "unmountComponentAtNode w canvas =
     (let store = roots_get w canvas in
      if \<not> truthy store then Inr w
      else bindE (get_prop (heap w) store ''root'') (\<lambda>root.
           bindE (get_prop (heap w) store ''state'') (\<lambda>state.
             unmount_callback
               (log_call w (Native ''reconciler.updateContainer'') Undefined [Null, root, Null])
               canvas state)))"

section \<open>Observations and sample scenes\<close>

text \<open>The entries of the handler mapping of an instance, if it has one.\<close>

definition handlers_of :: "world \<Rightarrow> jsval \<Rightarrow> props option" where
  "handlers_of w instance =
     (case get_prop (heap w) instance ''__handlers'' of
        Inr (Obj h) \<Rightarrow> map_option own (heap w h)
      | _ \<Rightarrow> None)"

text \<open>
  Two states agree on a key when they have the same allocation counter and every value has the
  same property under that key.
\<close>

abbreviation same_on :: "string \<Rightarrow> world \<Rightarrow> world \<Rightarrow> bool" where
  "same_on K w w' \<equiv> nxt w' = nxt w \<and> (\<forall>u. get_prop (heap w') u K = get_prop (heap w) u K)"

text \<open>The error a call ended with, if it raised one.\<close>

definition error_of :: "js_error + 'a \<Rightarrow> js_error option" where
  "error_of m = (case m of Inl e \<Rightarrow> Some e | Inr x \<Rightarrow> None)"

definition children_of :: "world \<Rightarrow> jsval \<Rightarrow> jsval list option" where
  "children_of w v =
     (case get_prop (heap w) v ''children'' of Inl e \<Rightarrow> None | Inr kids \<Rightarrow> array_of (heap w) kids)"

definition empty_world :: world where
  "empty_world = \<lparr>heap = (\<lambda>r. None), nxt = 0, calls = [], roots = [], hovered = []\<rparr>"

text \<open>A scene (object 0) and two meshes (objects 2 and 4), each with its empty child array.\<close>

definition two_meshes :: world where
  "two_meshes = empty_world\<lparr>heap :=
      (\<lambda>r. None)(0 \<mapsto> object3d ''Scene'' [] 1, 1 \<mapsto> array_object [],
                2 \<mapsto> object3d ''Mesh'' [] 3, 3 \<mapsto> array_object [],
                4 \<mapsto> object3d ''Mesh'' [] 5, 5 \<mapsto> array_object []), nxt := 6\<rparr>"

text \<open>
  A mesh (object 0) whose material slot holds a material (object 2), to be replaced by another
  material (object 4); each material has a texture in \<^verbatim>\<open>map\<close> (objects 3 and 5), and materials and
  textures have a \<^verbatim>\<open>dispose\<close> method.
\<close>

definition material_object :: "ref \<Rightarrow> jsobj" where
  "material_object tex =
     host_object ''MeshStandardMaterial''
       [(''type'', Str ''MeshStandardMaterial''), (''attach'', Str ''material''), (''map'', Obj tex)]
       [(''dispose'', Native ''Material.dispose'')]"

definition texture_object :: jsobj where
  "texture_object = host_object ''Texture'' [] [(''dispose'', Native ''Texture.dispose'')]"

definition mesh_with_material :: world where
  "mesh_with_material = empty_world\<lparr>heap :=
      (\<lambda>r. None)(0 \<mapsto> object3d ''Mesh'' [(''material'', Obj 2)] 1, 1 \<mapsto> array_object [],
                2 \<mapsto> material_object 3, 3 \<mapsto> texture_object,
                4 \<mapsto> material_object 5, 5 \<mapsto> texture_object), nxt := 6\<rparr>"

text \<open>
  The same mesh, where the \<^verbatim>\<open>attach\<close> of the second material is the array
  \<^verbatim>\<open>['material']\<close> (object 6).
\<close>

definition mesh_with_array_attach :: world where
  "mesh_with_array_attach = empty_world\<lparr>heap :=
      (\<lambda>r. None)(0 \<mapsto> object3d ''Mesh'' [(''material'', Obj 2)] 1, 1 \<mapsto> array_object [],
                2 \<mapsto> material_object 3, 3 \<mapsto> texture_object,
                4 \<mapsto> host_object ''MeshStandardMaterial''
                      [(''type'', Str ''MeshStandardMaterial''), (''attach'', Obj 6), (''map'', Obj 5)]
                      [(''dispose'', Native ''Material.dispose'')],
                5 \<mapsto> texture_object, 6 \<mapsto> array_object [Str ''material'']), nxt := 7\<rparr>"

text \<open>
  A scene (object 0) with no child, and a mesh (object 2) whose only child is another mesh
  (object 4).
\<close>

definition nested_meshes :: world where
  "nested_meshes = empty_world\<lparr>heap :=
      (\<lambda>r. None)(0 \<mapsto> object3d ''Scene'' [] 1, 1 \<mapsto> array_object [],
                2 \<mapsto> object3d ''Mesh'' [] 3, 3 \<mapsto> array_object [Obj 4],
                4 \<mapsto> host_object ''Mesh''
                      [(''type'', Str ''Mesh''), (''parent'', Obj 2), (''children'', Obj 5)]
                      object3d_methods,
                5 \<mapsto> array_object []), nxt := 6\<rparr>"

text \<open>
  A page with a canvas (object 0), the module's event manager (object 1) and an explicit size
  (object 2), and the options \<^verbatim>\<open>{ size, events }\<close> of the article's closing example.
\<close>

definition canvas_object :: jsobj where
  "canvas_object =
     host_object ''HTMLCanvasElement'' []
       [(''addEventListener'', Native ''EventTarget.addEventListener''),
        (''removeEventListener'', Native ''EventTarget.removeEventListener'')]"

definition page :: world where
  "page = empty_world\<lparr>heap :=
      (\<lambda>r. None)(0 \<mapsto> canvas_object, 1 \<mapsto> events_object,
                2 \<mapsto> plain_object [(''width'', Num 100), (''height'', Num 100)]), nxt := 3\<rparr>"

definition with_events :: options where
  "with_events =
     \<lparr>opt_size = Obj 2, opt_gl = None, opt_camera = None, opt_props = [(''events'', Obj 1)]\<rparr>"

text \<open>
  Two meshes under the pointer: object 0 was given \<^verbatim>\<open>onPointerOver\<close>, \<^verbatim>\<open>onPointerOut\<close> and
  \<^verbatim>\<open>onClick\<close> (its handler mapping is object 2); object 3 was given no handler, so
  \<^verbatim>\<open>applyProps\<close> never gave it a mapping. Objects 5 and 6 are the states of two surfaces,
  object 7 is a DOM event.
\<close>

definition mesh_object :: "string \<Rightarrow> props \<Rightarrow> ref \<Rightarrow> jsobj" where
  "mesh_object uuid ps kids = object3d ''Mesh'' ((''uuid'', Str uuid) # ps) kids"

definition pointer_world :: world where
  "pointer_world = empty_world\<lparr>heap :=
      (\<lambda>r. None)(0 \<mapsto> mesh_object ''a'' [(''__handlers'', Obj 2)] 1, 1 \<mapsto> array_object [],
                2 \<mapsto> plain_object [(''onPointerOver'', Fn 1), (''onPointerOut'', Fn 2), (''onClick'', Fn 3)],
                3 \<mapsto> mesh_object ''b'' [] 4, 4 \<mapsto> array_object [],
                5 \<mapsto> plain_object [], 6 \<mapsto> plain_object [],
                7 \<mapsto> plain_object [(''clientX'', Num 10), (''clientY'', Num 10)]), nxt := 8\<rparr>"


text \<open>
  A mesh (object 0) whose \<^verbatim>\<open>scale\<close> is a vector (object 2) and whose handler mapping (object 3)
  holds three handlers.
\<close>

definition vector3_object :: jsobj where
  "vector3_object =
     host_object ''Vector3'' [(''x'', Num 1), (''y'', Num 1), (''z'', Num 1)]
       [(''set'', Native ''Vector3.set''), (''copy'', Native ''Vector3.copy''),
        (''setScalar'', Native ''Vector3.setScalar'')]"

definition scaled_mesh :: world where
  "scaled_mesh = empty_world\<lparr>heap :=
      (\<lambda>r. None)(0 \<mapsto> mesh_object ''a'' [(''scale'', Obj 2), (''__handlers'', Obj 3)] 1,
                1 \<mapsto> array_object [], 2 \<mapsto> vector3_object,
                3 \<mapsto> plain_object [(''onPointerOver'', Fn 1), (''onPointerOut'', Fn 2), (''onClick'', Fn 3)]),
      nxt := 4\<rparr>"





section \<open>Falsy children\<close>

text \<open>
  Claim C10. \<^verbatim>\<open>appendChild\<close>, \<^verbatim>\<open>removeChild\<close> and \<^verbatim>\<open>insertBefore\<close> return at once when the
  child is \<^verbatim>\<open>null\<close> or \<^verbatim>\<open>undefined\<close>: no error is raised and the whole state, hence the
  parent's child collection and its attachment slots, is what it was.
\<close>

theorem scene_mutators_skip_missing_child:
  "appendChild w parentInstance Null = Inr w \<and> appendChild w parentInstance Undefined = Inr w \<and>
   removeChild w parentInstance Null = Inr w \<and> removeChild w parentInstance Undefined = Inr w \<and>
   insertBefore w parentInstance Null beforeChild = Inr w \<and>
   insertBefore w parentInstance Undefined beforeChild = Inr w"
  by (simp add: appendChild_def removeChild_def insertBefore_def)

section \<open>Reordering children\<close>

lemma bindE_Inr_iff: "bindE m f = Inr y \<longleftrightarrow> (\<exists>x. m = Inr x \<and> f x = Inr y)"
  by (cases m) (simp_all add: bindE_def)

lemma bindE_simps [simp]: "bindE (Inl e) f = Inl e" "bindE (Inr x) f = f x"
  by (simp_all add: bindE_def)

text \<open>Evaluation runs the first action before it looks at the continuation.\<close>

lemma bindE_weak_cong: "m = m' \<Longrightarrow> bindE m f = bindE m' f"
  by simp

text \<open>
  Claim C8, the scenario. \<^verbatim>\<open>meshA\<close> (object 2) and \<^verbatim>\<open>meshB\<close> (object 4) are appended to the
  scene (object 0), then \<^verbatim>\<open>insertBefore(scene, meshB, meshA)\<close> is called, as the reconciler
  does to move a child. \<^verbatim>\<open>insertBefore\<close> splices \<^verbatim>\<open>meshB\<close> in front of \<^verbatim>\<open>meshA\<close> without
  taking its old occurrence out: the child order is \<^verbatim>\<open>[meshB, meshA, meshB]\<close>, not
  \<^verbatim>\<open>[meshB, meshA]\<close>.
\<close>

theorem insertBefore_keeps_old_occurrence:
  "bindE (appendChild two_meshes (Obj 0) (Obj 2)) (\<lambda>w1.
     bindE (appendChild w1 (Obj 0) (Obj 4)) (\<lambda>w2.
       bindE (insertBefore w2 (Obj 0) (Obj 4) (Obj 2)) (\<lambda>w3. Inr (children_of w3 (Obj 0)))))
   = Inr (Some [Obj 4, Obj 2, Obj 4])"
  by code_simp

section \<open>Disposal on removal\<close>

lemma calls_delete_prop [simp]: "calls (delete_prop w v k) = calls w"
  by (cases v) (simp_all split: option.splits)

text \<open>
  The loop of \<^verbatim>\<open>removeChild\<close> tests \<^verbatim>\<open>property.dispose\<close> on the key, a string, which has
  no such property: the loop deletes the child's properties and calls nothing.
\<close>

lemma dispose_properties_calls_nothing:
  "\<exists>w'. dispose_properties w child ks = Inr w' \<and> calls w' = calls w"
proof (induction ks arbitrary: w)
  case Nil
  show ?case by simp
next
  case (Cons k ks)
  from Cons [of "delete_prop w child k"]
  obtain w' where "dispose_properties (delete_prop w child k) child ks = Inr w'"
    and "calls w' = calls w" by auto
  then show ?case by simp
qed

text \<open>
  Claim C3, at a material (object 2) removed from its mesh (object 0). The material has a
  texture in \<^verbatim>\<open>map\<close> (object 3) with a \<^verbatim>\<open>dispose\<close> method. \<^verbatim>\<open>removeChild\<close> calls the
  material's own \<^verbatim>\<open>dispose\<close> and nothing else: the texture is never released, and every own
  property of the material is deleted.
\<close>

theorem removeChild_never_disposes_properties:
  "bindE (removeChild mesh_with_material (Obj 0) (Obj 2))
     (\<lambda>w. Inr (calls w, map_option own (heap w 2), map_option proto (heap w 3)))
   = Inr ([Call (Native ''Material.dispose'') (Obj 2) []], Some [],
          Some [(''dispose'', Native ''Texture.dispose'')])"
  by code_simp

section \<open>Dispatch without a handler mapping\<close>

text \<open>
  Claim C2, at a mesh that carries no handler mapping (object 3). The pointer hits it; reading
  \<^verbatim>\<open>handlers[type]\<close>, or \<^verbatim>\<open>handlers.onHover\<close> for the hover event, on the undefined
  mapping raises a TypeError. Where the mapping exists and has no matching handler (object 0,
  a double click), dispatch is skipped and nothing changes.
\<close>

theorem handleEvent_raises_without_mapping:
  "error_of (handleEvent pointer_world (Obj 5) [Obj 3] (Obj 7) ''onClick'') = Some TypeError \<and>
   error_of (handleEvent pointer_world (Obj 5) [Obj 3] (Obj 7) ''hoverEvent'') = Some TypeError \<and>
   bindE (handleEvent pointer_world (Obj 5) [Obj 0] (Obj 7) ''onDoubleClick'')
     (\<lambda>w. Inr (calls w, hovered w)) = Inr ([], [])"
  by code_simp

section \<open>Unchanged props\<close>

lemma lookup_in_values: "k \<in> fst ` set p \<Longrightarrow> lookup p k \<in> snd ` set p"
proof -
  assume "k \<in> fst ` set p"
  then obtain v where "map_of p k = Some v"
    by (metis domD dom_map_of_conv_image_fst)
  then show ?thesis
    by (auto simp: lookup_def dest: map_of_SomeD intro: image_eqI [where x = "(k, v)"])
qed

lemma identical_keys_same:
  "NaN \<notin> snd ` set p \<Longrightarrow> identical_keys p p = map fst p"
proof -
  assume nan: "NaN \<notin> snd ` set p"
  have "\<And>k. k \<in> set (map fst p) \<Longrightarrow> strict_eq (lookup p k) (lookup p k)"
  proof -
    fix k assume "k \<in> set (map fst p)"
    then have "lookup p k \<in> snd ` set p" by (simp add: lookup_in_values)
    with nan have "lookup p k \<noteq> NaN" by metis
    then show "strict_eq (lookup p k) (lookup p k)" by (simp add: strict_eq_def)
  qed
  then show ?thesis
    unfolding identical_keys_def by (simp add: filter_id_conv)
qed

lemma pruneKeys_all: "set (map fst p) \<subseteq> set keys \<Longrightarrow> pruneKeys p keys = []"
  by (auto simp: pruneKeys_def filter_empty_conv)

lemma calls_store_handlers:
  "store_handlers w instance p = Inr w' \<Longrightarrow> calls w' = calls w"
  by (cases "instance") (auto simp: store_handlers_def alloc_def split: option.splits)

text \<open>
  Claim C9, as stated: \<^verbatim>\<open>applyProps(instance, p, p)\<close> is a no-op on the instance, with no copy
  call, no setter call and no plain-field assignment for any key of \<^verbatim>\<open>p\<close>. Two calls on the
  sample mesh show that this fails. With \<^verbatim>\<open>p = { onClick }\<close> no call is made, but the handler
  mapping of the instance, which held three handlers, is replaced by a new object that holds
  \<^verbatim>\<open>onClick\<close> only: the instance is not left as it was. With \<^verbatim>\<open>p = { scale: NaN }\<close> the key
  is not filtered out, since \<^verbatim>\<open>NaN === NaN\<close> is false, and \<^verbatim>\<open>setScalar(NaN)\<close> is called on the
  scale of the instance.
\<close>

theorem applyProps_same_props_not_a_no_op:
  "handlers_of scaled_mesh (Obj 0) =
     Some [(''onPointerOver'', Fn 1), (''onPointerOut'', Fn 2), (''onClick'', Fn 3)] \<and>
   get_prop (heap scaled_mesh) (Obj 0) ''__handlers'' = Inr (Obj 3) \<and>
   bindE (applyProps scaled_mesh (Obj 0) [(''onClick'', Fn 3)] [(''onClick'', Fn 3)])
     (\<lambda>w'. Inr (calls w', get_prop (heap w') (Obj 0) ''__handlers'', handlers_of w' (Obj 0))) =
     Inr ([], Inr (Obj 4), Some [(''onClick'', Fn 3)]) \<and>
   bindE (applyProps scaled_mesh (Obj 0) [(''scale'', NaN)] [(''scale'', NaN)])
     (\<lambda>w'. Inr (calls w')) = Inr [Call (Native ''Vector3.setScalar'') (Obj 2) [NaN]]"
  by code_simp

text \<open>
  Claim C9, amended. For every instance and every props mapping \<^verbatim>\<open>p\<close> none of whose values is
  \<^verbatim>\<open>NaN\<close>, \<^verbatim>\<open>applyProps(instance, p, p)\<close> applies no prop: every key is filtered out as
  identical, so the list of props to apply is empty and the loop is not entered, and no
  \<^verbatim>\<open>copy\<close>, no \<^verbatim>\<open>set\<close> or \<^verbatim>\<open>setScalar\<close> call, no field assignment for a key of \<^verbatim>\<open>p\<close> and
  no call at all is made. The call leaves the state as it is when \<^verbatim>\<open>p\<close> holds no handler; when
  \<^verbatim>\<open>p\<close> holds a handler, all it does is its last block, which replaces the handler mapping of the
  instance by a new object holding the handlers of \<^verbatim>\<open>p\<close>.
\<close>

theorem applyProps_same_props_applies_nothing:
  assumes "NaN \<notin> snd ` set p"
  shows "applicable_props p p = [] \<and>
         applyProps w instance p p =
           (if handler_keys p = [] then Inr w else store_handlers w instance p) \<and>
         (\<forall>w'. applyProps w instance p p = Inr w' \<longrightarrow> calls w' = calls w)"
proof -
  from assms have "identical_keys p p = map fst p"
    by (simp add: identical_keys_same)
  then have none: "applicable_props p p = []"
    by (simp add: applicable_props_def pruneKeys_def filter_empty_conv split_def)
  then have eq: "applyProps w instance p p =
      (if handler_keys p = [] then Inr w else store_handlers w instance p)"
    by (simp add: applyProps_def)
  have "\<forall>w'. applyProps w instance p p = Inr w' \<longrightarrow> calls w' = calls w"
    unfolding eq by (auto dest: calls_store_handlers)
  with none eq show ?thesis by blast
qed

theorem applyProps_same_props_witness:
  "NaN \<notin> snd ` set [(''scale'', Num 2), (''onClick'', Fn 3)] \<and>
   applicable_props [(''scale'', Num 2), (''onClick'', Fn 3)] [(''scale'', Num 2), (''onClick'', Fn 3)] = [] \<and>
   bindE (applyProps pointer_world (Obj 0) [(''scale'', Num 2), (''onClick'', Fn 3)]
            [(''scale'', Num 2), (''onClick'', Fn 3)])
     (\<lambda>w'. Inr (calls w', handlers_of w' (Obj 0))) = Inr ([], Some [(''onClick'', Fn 3)]) \<and>
   applyProps pointer_world (Obj 0) [(''scale'', Num 2)] [(''scale'', Num 2)] = Inr pointer_world"
proof -
  let ?p = "[(''scale'', Num 2), (''onClick'', Fn 3)]"
  let ?q = "[(''scale'', Num 2)]"
  have wf: "NaN \<notin> snd ` set ?p"
    by simp
  have wf2: "NaN \<notin> snd ` set ?q"
    by simp
  have run: "bindE (store_handlers pointer_world (Obj 0) ?p)
     (\<lambda>w'. Inr (calls w', handlers_of w' (Obj 0))) = Inr ([], Some [(''onClick'', Fn 3)])"
    by code_simp
  have hk: "handler_keys ?p \<noteq> []"
    by code_simp
  have hk2: "handler_keys ?q = []"
    by code_simp
  note a = applyProps_same_props_applies_nothing [OF wf, of pointer_world "Obj 0"]
  note b = applyProps_same_props_applies_nothing [OF wf2, of pointer_world "Obj 0"]
  from a have c1: "applicable_props ?p ?p = []"
    by (rule conjunct1)
  from a have "applyProps pointer_world (Obj 0) ?p ?p =
      (if handler_keys ?p = [] then Inr pointer_world else store_handlers pointer_world (Obj 0) ?p)"
    by (rule conjunct2 [THEN conjunct1])
  with hk have "applyProps pointer_world (Obj 0) ?p ?p = store_handlers pointer_world (Obj 0) ?p"
    by (simp only: if_False refl)
  with run have c2: "bindE (applyProps pointer_world (Obj 0) ?p ?p)
     (\<lambda>w'. Inr (calls w', handlers_of w' (Obj 0))) = Inr ([], Some [(''onClick'', Fn 3)])"
    by (simp only:)
  from b have "applyProps pointer_world (Obj 0) ?q ?q =
      (if handler_keys ?q = [] then Inr pointer_world else store_handlers pointer_world (Obj 0) ?q)"
    by (rule conjunct2 [THEN conjunct1])
  with hk2 have c3: "applyProps pointer_world (Obj 0) ?q ?q = Inr pointer_world"
    by (simp only: if_True refl)
  from wf c1 c2 c3 show ?thesis
    by (intro conjI)
qed

section \<open>What the property applier leaves alone\<close>

lemma bindE_InrE:
  assumes "bindE m f = Inr y"
  obtains x where "m = Inr x" and "f x = Inr y"
  using assms by (auto simp: bindE_Inr_iff)

lemma get_prop_heap_cong:
  assumes "\<And>r. map_option (\<lambda>ob. (map_of (own ob) k, map_of (proto ob) k)) (h' r) =
        map_option (\<lambda>ob. (map_of (own ob) k, map_of (proto ob) k)) (h r)"
  shows "get_prop h' u k = get_prop h u k"
proof (cases u)
  case (Obj r)
  from assms [of r] show ?thesis
    unfolding Obj by (cases "h r"; cases "h' r") (simp_all split: option.splits)
qed simp_all

lemma set_prop_keeps:
  assumes "set_prop w v k x = Inr w'" and "k \<noteq> K"
  shows "same_on K w w'"
proof -
  from assms(1) obtain r ob where v: "v = Obj r" and ob: "heap w r = Some ob"
    and w': "w' = w\<lparr>heap := (heap w)(r \<mapsto> ob\<lparr>own := AList.update k x (own ob)\<rparr>)\<rparr>"
    by (cases v) (auto split: option.splits)
  have "get_prop (heap w') u K = get_prop (heap w) u K" for u
    by (rule get_prop_heap_cong) (use ob assms(2) in \<open>simp add: w' update_conv'\<close>)
  then show ?thesis by (simp add: w')
qed

lemma set_prop_ObjE:
  assumes "set_prop w (Obj r) k x = Inr w'"
  obtains ob where "heap w r = Some ob"
    and "w' = w\<lparr>heap := (heap w)(r \<mapsto> ob\<lparr>own := AList.update k x (own ob)\<rparr>)\<rparr>"
  using assms by (auto split: option.splits)

lemma set_elems_keeps: "same_on K w (set_elems w v xs)"
proof (cases v)
  case (Obj r)
  have "get_prop (heap (set_elems w (Obj r) xs)) u K = get_prop (heap w) u K" for u
    by (rule get_prop_heap_cong) (simp split: option.splits)
  then show ?thesis unfolding Obj by (simp split: option.splits)
qed simp_all

lemma same_on_trans: "same_on K a b \<Longrightarrow> same_on K b c \<Longrightarrow> same_on K a c"
  by simp

lemma invoke_plain_keeps:
  "invoke_plain w f this args = Inr w' \<Longrightarrow> same_on K w w'"
  by (auto simp: invoke_plain_def log_call_def split: if_splits)

lemma dispatch_native_keeps:
  "dispatch_native w object ty = Inr w' \<Longrightarrow> same_on K w w'"
  unfolding dispatch_native_def by (elim bindE_InrE) (rule invoke_plain_keeps)

lemma obj3d_remove_cases:
  assumes run: "obj3d_remove w this object = Inr w'"
  shows "w' = w \<or> (\<exists>kids ys w1. set_prop w object ''parent'' Null = Inr w1 \<and>
            dispatch_native (set_elems w1 kids ys) object ''removed'' = Inr w')"
  using run unfolding obj3d_remove_def
  by (auto simp: Let_def split: option.splits if_splits elim!: bindE_InrE)

lemma obj3d_remove_keeps:
  assumes run: "obj3d_remove w this object = Inr w'" and K: "K \<noteq> ''parent''"
  shows "same_on K w w'"
proof -
  from obj3d_remove_cases [OF run] show ?thesis
  proof
    assume "w' = w"
    then show ?thesis by simp
  next
    assume "\<exists>kids ys w1. set_prop w object ''parent'' Null = Inr w1 \<and>
            dispatch_native (set_elems w1 kids ys) object ''removed'' = Inr w'"
    then obtain kids ys w1 where s: "set_prop w object ''parent'' Null = Inr w1"
      and d: "dispatch_native (set_elems w1 kids ys) object ''removed'' = Inr w'"
      by blast
    have A: "same_on K w w1"
      by (rule set_prop_keeps [OF s K [symmetric]])
    have B: "same_on K w1 (set_elems w1 kids ys)"
      by (rule set_elems_keeps)
    from d have C: "same_on K (set_elems w1 kids ys) w'"
      by (rule dispatch_native_keeps)
    show ?thesis
      by (rule same_on_trans [OF A same_on_trans [OF B C]])
  qed
qed

lemma log_call_keeps: "same_on K w (log_call w f this args)"
  by (simp add: log_call_def)

lemma obj3d_add_keeps:
  assumes run: "obj3d_add w this object = Inr w'" and K: "K \<noteq> ''parent''"
  shows "same_on K w w'"
proof -
  note sp = set_prop_keeps [of _ _ "''parent''" _ _ K, OF _ K [symmetric]]
  note rm = obj3d_remove_keeps [of _ _ _ _ K, OF _ K]
  note dn = dispatch_native_keeps [of _ _ _ _ K]
  note ip = invoke_plain_keeps [of _ _ _ _ _ K]
  from run show ?thesis
    unfolding obj3d_add_def
    by (auto simp: set_elems_keeps log_call_def split: option.splits if_splits
        elim!: bindE_InrE dest!: sp rm dn ip)
qed

lemma call_method_keeps:
  assumes run: "call_method w this m args = Inr w'" and K: "K \<noteq> ''parent''"
  shows "same_on K w w'"
proof -
  note rm = obj3d_remove_keeps [of _ _ _ _ K, OF _ K]
  note ad = obj3d_add_keeps [of _ _ _ _ K, OF _ K]
  note ip = invoke_plain_keeps [of _ _ _ _ _ K]
  from run show ?thesis
    unfolding call_method_def
    by (auto split: if_splits elim!: bindE_InrE dest!: rm ad ip)
qed

lemma apply_prop_keeps:
  assumes run: "apply_prop w inst key val = Inr w'" and K: "K \<noteq> ''parent''" and key: "key \<noteq> K"
  shows "same_on K w w'"
proof -
  note cm = call_method_keeps [of _ _ _ _ _ K, OF _ K]
  note sp = set_prop_keeps [of _ _ key _ _ K, OF _ key]
  from run show ?thesis
    unfolding apply_prop_def
    by (auto simp: Let_def split: option.splits if_splits elim!: bindE_InrE dest!: cm sp)
qed

lemma apply_each_keeps:
  assumes "apply_each w inst ps = Inr w'" and "K \<noteq> ''parent''" and "K \<notin> fst ` set ps"
  shows "same_on K w w'"
  using assms
proof (induction ps arbitrary: w)
  case Nil
  then show ?case by simp
next
  case (Cons p ps)
  obtain key val where p: "p = (key, val)" by (cases p)
  from Cons.prems(1) obtain w1 where a: "apply_prop w inst key val = Inr w1"
    and r: "apply_each w1 inst ps = Inr w'"
    unfolding p by (auto elim!: bindE_InrE)
  from Cons.prems(3) have key: "key \<noteq> K" and rest: "K \<notin> fst ` set ps"
    unfolding p by auto
  have A: "same_on K w w1"
    by (rule apply_prop_keeps [OF a Cons.prems(2) key])
  have B: "same_on K w1 w'"
    by (rule Cons.IH [OF r Cons.prems(2) rest])
  show ?case by (rule same_on_trans [OF A B])
qed

section \<open>Collected handlers\<close>

lemma apply_each_nxt:
  assumes "apply_each w inst ps = Inr w'"
  shows "nxt w' = nxt w"
proof -
  have "finite (insert ''parent'' (fst ` set ps))" by simp
  then obtain K where "K \<notin> insert ''parent'' (fst ` set ps)"
    using ex_new_if_finite [OF infinite_UNIV_listI] by metis
  then have "K \<noteq> ''parent''" and "K \<notin> fst ` set ps" by auto
  from apply_each_keeps [OF assms this] show ?thesis by simp
qed

lemma store_handlers_result:
  assumes "store_handlers w (Obj i) p = Inr w'" and "i \<noteq> nxt w"
  shows "handlers_of w' (Obj i) = Some (collected_handlers p)"
proof -
  from assms obtain ob where ob: "heap w i = Some ob"
    and w': "w' = w\<lparr>heap := (heap w)(nxt w \<mapsto> plain_object (collected_handlers p),
                 i \<mapsto> ob\<lparr>own := AList.update ''__handlers'' (Obj (nxt w)) (own ob)\<rparr>),
               nxt := Suc (nxt w)\<rparr>"
    by (auto simp: store_handlers_def alloc_def split: option.splits)
  from assms(2) show ?thesis
    by (simp add: w' handlers_of_def update_conv' plain_object_def)
qed

text \<open>
  Claim C5, as stated, at a mesh that has handlers (object 0, mapping object 2) and is updated
  with props that hold no handler: the block that writes the mapping is guarded by
  \<^verbatim>\<open>if (handlers.length)\<close>, so the old mapping stays, while the props hold no handler.
\<close>

theorem applyProps_keeps_stale_handlers:
  "bindE (applyProps pointer_world (Obj 0) [(''visible'', Bool True)]
            [(''onClick'', Fn 3), (''onPointerOver'', Fn 1), (''onPointerOut'', Fn 2)])
     (\<lambda>w. Inr (handlers_of w (Obj 0))) =
     Inr (Some [(''onPointerOver'', Fn 1), (''onPointerOut'', Fn 2), (''onClick'', Fn 3)]) \<and>
   collected_handlers [(''visible'', Bool True)] = []"
  by code_simp

text \<open>
  Claim C5, amended. When \<^verbatim>\<open>applyProps\<close> returns and the new props hold at least one
  handler, the handler mapping of the instance is a new object holding exactly the handlers of
  the new props, whatever it held before. When the new props hold no handler (and no prop named
  \<^verbatim>\<open>__handlers\<close>), the \<^verbatim>\<open>__handlers\<close> property of the instance is left as it was.
\<close>

theorem applyProps_replaces_handlers_when_present:
  assumes run: "applyProps w (Obj i) newProps oldProps = Inr w'" and i: "i < nxt w"
  shows "(handler_keys newProps \<noteq> [] \<longrightarrow>
            handlers_of w' (Obj i) = Some (collected_handlers newProps)) \<and>
         (handler_keys newProps = [] \<and> ''__handlers'' \<notin> fst ` set newProps \<longrightarrow>
            get_prop (heap w') (Obj i) ''__handlers'' = get_prop (heap w) (Obj i) ''__handlers'')"
proof -
  from run obtain w1 where
    loop: "(if applicable_props newProps oldProps \<noteq> []
            then apply_each w (Obj i) (applicable_props newProps oldProps) else Inr w) = Inr w1"
    and last: "(if handler_keys newProps \<noteq> [] then store_handlers w1 (Obj i) newProps else Inr w1) = Inr w'"
    unfolding applyProps_def by (auto simp: Let_def elim!: bindE_InrE)
  have sub: "fst ` set (applicable_props newProps oldProps) \<subseteq> fst ` set newProps"
    by (auto simp: applicable_props_def pruneKeys_def)
  have "nxt w1 = nxt w"
  proof (cases "applicable_props newProps oldProps \<noteq> []")
    case True
    with loop have "apply_each w (Obj i) (applicable_props newProps oldProps) = Inr w1" by simp
    then show ?thesis by (rule apply_each_nxt)
  next
    case False
    with loop show ?thesis by simp
  qed
  with i have fresh: "i \<noteq> nxt w1" by simp
  have a: "handlers_of w' (Obj i) = Some (collected_handlers newProps)"
    if "handler_keys newProps \<noteq> []"
  proof -
    from last that have "store_handlers w1 (Obj i) newProps = Inr w'" by simp
    then show ?thesis using fresh by (rule store_handlers_result)
  qed
  have b: "get_prop (heap w') (Obj i) ''__handlers'' = get_prop (heap w) (Obj i) ''__handlers''"
    if none: "handler_keys newProps = []" and key: "''__handlers'' \<notin> fst ` set newProps"
  proof -
    from last none have w': "w' = w1" by simp
    show ?thesis
    proof (cases "applicable_props newProps oldProps \<noteq> []")
      case True
      with loop have e: "apply_each w (Obj i) (applicable_props newProps oldProps) = Inr w1" by simp
      from key sub have k: "''__handlers'' \<notin> fst ` set (applicable_props newProps oldProps)" by auto
      have "''__handlers'' \<noteq> ''parent''" by simp
      from apply_each_keeps [OF e this k]
      have "\<forall>u. get_prop (heap w1) u ''__handlers'' = get_prop (heap w) u ''__handlers''"
        by (rule conjunct2)
      then show ?thesis unfolding w' by (rule spec)
    next
      case False
      with loop show ?thesis unfolding w' by simp
    qed
  qed
  from a b show ?thesis by simp
qed

theorem applyProps_replaces_handlers_witness:
  "bindE (applyProps pointer_world (Obj 0) [(''onClick'', Fn 9)] [(''onClick'', Fn 3)])
     (\<lambda>w. Inr (handlers_of w (Obj 0))) = Inr (Some [(''onClick'', Fn 9)]) \<and>
   bindE (applyProps pointer_world (Obj 0) [(''visible'', Bool True)] [(''onClick'', Fn 3)])
     (\<lambda>w. Inr (get_prop (heap w) (Obj 0) ''__handlers'')) = Inr (Inr (Obj 2))"
proof -
  have e1: "error_of (applyProps pointer_world (Obj 0) [(''onClick'', Fn 9)] [(''onClick'', Fn 3)]) = None"
    by code_simp
  then obtain w1 where
    r1: "applyProps pointer_world (Obj 0) [(''onClick'', Fn 9)] [(''onClick'', Fn 3)] = Inr w1"
    by (cases "applyProps pointer_world (Obj 0) [(''onClick'', Fn 9)] [(''onClick'', Fn 3)]")
       (simp_all add: error_of_def)
  have e2: "error_of (applyProps pointer_world (Obj 0) [(''visible'', Bool True)] [(''onClick'', Fn 3)]) = None"
    by code_simp
  then obtain w2 where
    r2: "applyProps pointer_world (Obj 0) [(''visible'', Bool True)] [(''onClick'', Fn 3)] = Inr w2"
    by (cases "applyProps pointer_world (Obj 0) [(''visible'', Bool True)] [(''onClick'', Fn 3)]")
       (simp_all add: error_of_def)
  have i: "0 < nxt pointer_world" by (simp add: pointer_world_def)
  have k1: "handler_keys [(''onClick'', Fn 9)] \<noteq> []" by code_simp
  have k2: "handler_keys [(''visible'', Bool True)] = []" by code_simp
  have k3: "''__handlers'' \<notin> fst ` set [(''visible'', Bool True)]" by simp
  have c: "collected_handlers [(''onClick'', Fn 9)] = [(''onClick'', Fn 9)]" by code_simp
  have g: "get_prop (heap pointer_world) (Obj 0) ''__handlers'' = Inr (Obj 2)" by code_simp
  from applyProps_replaces_handlers_when_present [OF r1 i] k1 c
    applyProps_replaces_handlers_when_present [OF r2 i] k2 k3 g
  show ?thesis by (simp add: r1 r2)
qed

section \<open>Frame subscribers\<close>









section \<open>Hover state\<close>


















section \<open>Appending and removing a child\<close>

lemma invoke_plain_heap: "invoke_plain w f this args = Inr w' \<Longrightarrow> heap w' = heap w"
  by (auto simp: invoke_plain_def log_call_def split: if_splits)

lemma dispatch_native_heap: "dispatch_native w object ty = Inr w' \<Longrightarrow> heap w' = heap w"
  by (auto simp: dispatch_native_def elim!: bindE_InrE dest: invoke_plain_heap)

lemma index_of_absent: "x \<notin> set xs \<Longrightarrow> index_of xs x = -1"
  by (induction xs) (auto simp: strict_eq_def Let_def)

lemma index_of_snoc: "Obj c \<notin> set xs \<Longrightarrow> index_of (xs @ [Obj c]) (Obj c) = int (length xs)"
  by (induction xs) (auto simp: strict_eq_def Let_def)

lemma dispose_properties_heap:
  "dispose_properties w (Obj c) ks = Inr w' \<Longrightarrow> r \<noteq> c \<Longrightarrow> heap w' r = heap w r"
proof (induction ks arbitrary: w)
  case Nil
  then show ?case by simp
next
  case (Cons k ks)
  from Cons.prems(1) have "dispose_properties (delete_prop w (Obj c) k) (Obj c) ks = Inr w'"
    by simp
  from Cons.IH [OF this Cons.prems(2)] Cons.prems(2) show ?case
    by (simp split: option.splits)
qed

lemma call_method_no_args_heap:
  assumes "call_method w this m [] = Inr w'"
  shows "heap w' = heap w"
proof -
  from assms obtain f w1 where i: "invoke_plain w f this [] = Inr w1"
    and r: "(if f = Native ''Object3D.add'' then obj3d_add w1 this Undefined
             else if f = Native ''Object3D.remove'' then obj3d_remove w1 this Undefined
             else Inr w1) = Inr w'"
    unfolding call_method_def by (auto elim!: bindE_InrE cong: if_cong)
  have "heap w' = heap w1"
  proof (cases "f = Native ''Object3D.remove''")
    case True
    with r have "obj3d_remove w1 this Undefined = Inr w'" by simp
    from obj3d_remove_cases [OF this] show ?thesis by auto
  next
    case False
    with r show ?thesis by (auto simp: obj3d_add_def split: if_splits)
  qed
  with invoke_plain_heap [OF i] show ?thesis by simp
qed

lemma dispose_child_heap:
  assumes run: "dispose_child w (Obj c) = Inr w'" and r: "r \<noteq> c"
  shows "heap w' r = heap w r"
proof -
  from run obtain ty where
    body: "(if \<not> strict_eq ty (Str ''Scene'') then
         bindE (get_prop (heap w) (Obj c) ''dispose'') (\<lambda>d.
           bindE (if truthy d then call_method w (Obj c) ''dispose'' [] else Inr w) (\<lambda>w1.
             dispose_properties w1 (Obj c) (for_in_keys (heap w1) (Obj c))))
       else Inr w) = Inr w'"
    unfolding dispose_child_def by (auto simp del: get_prop.simps for_in_keys.simps elim!: bindE_InrE)
  show ?thesis
  proof (cases "strict_eq ty (Str ''Scene'')")
    case True
    with body show ?thesis by simp
  next
    case False
    with body obtain d w1 where
      call: "(if truthy d then call_method w (Obj c) ''dispose'' [] else Inr w) = Inr w1" and
      loop: "dispose_properties w1 (Obj c) (for_in_keys (heap w1) (Obj c)) = Inr w'"
      by (auto simp del: get_prop.simps for_in_keys.simps elim!: bindE_InrE)
    from call have "heap w1 = heap w"
      by (auto split: if_splits dest: call_method_no_args_heap)
    with dispose_properties_heap [OF loop r] show ?thesis by simp
  qed
qed

lemma get_prop_heap_eq: "h' r = h r \<Longrightarrow> get_prop h' (Obj r) k = get_prop h (Obj r) k"
  by simp

lemma get_prop_Obj_total: "\<exists>v. get_prop h (Obj r) k = Inr v"
  by (simp split: option.splits)


lemma index_of_found: "index_of xs x \<noteq> -1 \<Longrightarrow> x \<in> set xs"
  using index_of_absent by blast

text \<open>
  The key a value is converted to depends on the heap only through the constructor names and
  the elements of the objects.
\<close>

lemma elem_text_heap_cong:
  assumes "\<And>r. map_option (\<lambda>ob. (ctor ob, elems ob)) (h' r) = map_option (\<lambda>ob. (ctor ob, elems ob)) (h r)"
  shows "elem_text h' v = elem_text h v"
proof (cases v)
  case (Obj r)
  from assms [of r] show ?thesis
    unfolding Obj by (cases "h r"; cases "h' r") simp_all
qed simp_all

lemma to_key_heap_cong:
  assumes "\<And>r. map_option (\<lambda>ob. (ctor ob, elems ob)) (h' r) = map_option (\<lambda>ob. (ctor ob, elems ob)) (h r)"
  shows "to_key h' v = to_key h v"
proof (cases v)
  case (Obj r)
  have "elem_text h' = elem_text h"
    by (rule ext) (rule elem_text_heap_cong [OF assms])
  with assms [of r] show ?thesis
    unfolding Obj by (cases "h r"; cases "h' r") auto
qed simp_all

lemma attach_slot_SomeE:
  assumes "attach_slot w parent child = Inr (Some k)"
  obtains attach v where "get_prop (heap w) child ''attach'' = Inr attach" and "truthy attach"
    and "to_key (heap w) attach = Inr k" and "get_prop (heap w) parent k = Inr v" and "v \<noteq> Undefined"
  using assms unfolding attach_slot_def
  by (auto simp del: get_prop.simps to_key.simps split: if_splits elim!: bindE_InrE)

text \<open>
  A child that uses a slot of its parent: appending writes the child into the slot, removing
  writes \<^verbatim>\<open>null\<close> into it, whatever the slot held before.
\<close>

lemma attached_round_trip:
  assumes pc: "p \<noteq> c"
    and slot: "attach_slot w (Obj p) (Obj c) = Inr (Some k)"
    and app: "appendChild w (Obj p) (Obj c) = Inr w1"
    and rem: "removeChild w1 (Obj p) (Obj c) = Inr w2"
  shows "\<exists>po. heap w p = Some po \<and>
           heap w2 p = Some (po\<lparr>own := AList.update k Null (own po)\<rparr>) \<and>
           (\<forall>r. r \<noteq> p \<longrightarrow> r \<noteq> c \<longrightarrow> heap w2 r = heap w r)"
proof -
  from slot obtain attach v where att: "get_prop (heap w) (Obj c) ''attach'' = Inr attach"
    and t: "truthy attach" and key: "to_key (heap w) attach = Inr k"
    by (rule attach_slot_SomeE)
  from app have "set_prop w (Obj p) k (Obj c) = Inr w1"
    by (simp add: appendChild_def slot del: get_prop.simps set_prop.simps)
  then obtain po where po: "heap w p = Some po"
    and w1: "w1 = w\<lparr>heap := (heap w)(p \<mapsto> po\<lparr>own := AList.update k (Obj c) (own po)\<rparr>)\<rparr>"
    by (rule set_prop_ObjE)
  have "get_prop (heap w1) (Obj c) ''attach'' = get_prop (heap w) (Obj c) ''attach''"
    by (rule get_prop_heap_eq) (use pc in \<open>simp add: w1\<close>)
  with att have att1: "get_prop (heap w1) (Obj c) ''attach'' = Inr attach"
    by (simp del: get_prop.simps)
  have "to_key (heap w1) attach = to_key (heap w) attach"
    by (rule to_key_heap_cong) (use po in \<open>simp add: w1\<close>)
  with key have key1: "to_key (heap w1) attach = Inr k"
    by (simp del: to_key.simps)
  have g1: "get_prop (heap w1) (Obj p) k = Inr (Obj c)"
    by (simp add: w1 update_conv')
  have slot1: "attach_slot w1 (Obj p) (Obj c) = Inr (Some k)"
    using t by (simp add: attach_slot_def att1 key1 g1 del: get_prop.simps to_key.simps)
  from rem obtain wa where
    det: "set_prop w1 (Obj p) k Null = Inr wa" and
    dis: "dispose_child wa (Obj c) = Inr w2"
    by (auto simp: removeChild_def slot1 simp del: get_prop.simps set_prop.simps
        elim!: bindE_InrE)
  from det obtain po' where po': "heap w1 p = Some po'"
    and wa': "wa = w1\<lparr>heap := (heap w1)(p \<mapsto> po'\<lparr>own := AList.update k Null (own po')\<rparr>)\<rparr>"
    by (rule set_prop_ObjE)
  from po' have "po' = po\<lparr>own := AList.update k (Obj c) (own po)\<rparr>"
    by (simp add: w1)
  then have wa: "heap wa = (heap w)(p \<mapsto> po\<lparr>own := AList.update k Null (own po)\<rparr>)"
    by (simp add: wa' w1)
  have "heap w2 r = heap wa r" if "r \<noteq> c" for r
    using dis that by (rule dispose_child_heap)
  with pc po show ?thesis by (simp add: wa)
qed

lemma array_of_Obj: "heap w a = Some ar \<Longrightarrow> ctor ar = ''Array'' \<Longrightarrow> array_of (heap w) (Obj a) = Some (elems ar)"
  by simp



text \<open>
  \<^verbatim>\<open>Object3D.remove\<close> changes the object it removes and the child array it removes it from,
  and nothing else.
\<close>

lemma obj3d_remove_untouched:
  assumes run: "obj3d_remove w q (Obj c) = Inr w'" and rc: "r \<noteq> c"
    and nc: "\<And>arr. heap w r = Some arr \<Longrightarrow> ctor arr = ''Array'' \<Longrightarrow> Obj c \<notin> set (elems arr)"
  shows "heap w' r = heap w r"
proof -
  from run obtain kids xs where
    x: "array_of (heap w) kids = Some xs" and
    body: "(if index_of xs (Obj c) \<noteq> -1 then
              bindE (set_prop w (Obj c) ''parent'' Null) (\<lambda>w1.
                dispatch_native (set_elems w1 kids (remove_nth (nat (index_of xs (Obj c))) xs))
                  (Obj c) ''removed'')
            else Inr w) = Inr w'"
    unfolding obj3d_remove_def
    by (auto simp: Let_def simp del: get_prop.simps set_prop.simps array_of.simps
        set_elems.simps remove_nth.simps split: option.splits elim!: bindE_InrE)
  show ?thesis
  proof (cases "index_of xs (Obj c) = -1")
    case True
    with body show ?thesis by simp
  next
    case False
    then have mem: "Obj c \<in> set xs" by (rule index_of_found)
    from x obtain k ka where kids: "kids = Obj k" and ka: "heap w k = Some ka"
      and ck: "ctor ka = ''Array''" and ek: "elems ka = xs"
      by (cases kids) (auto split: option.splits if_splits)
    from nc [OF _ ck] ka ek mem have rk: "r \<noteq> k" by auto
    from body False obtain wb where
      sp: "set_prop w (Obj c) ''parent'' Null = Inr wb" and
      d: "dispatch_native (set_elems wb (Obj k) (remove_nth (nat (index_of xs (Obj c))) xs))
            (Obj c) ''removed'' = Inr w'"
      by (auto simp: kids simp del: set_prop.simps set_elems.simps remove_nth.simps
          elim!: bindE_InrE)
    from sp obtain co where
      wb: "wb = w\<lparr>heap := (heap w)(c \<mapsto> co\<lparr>own := AList.update ''parent'' Null (own co)\<rparr>)\<rparr>"
      by (rule set_prop_ObjE)
    from d have "heap w' = heap (set_elems wb (Obj k) (remove_nth (nat (index_of xs (Obj c))) xs))"
      by (rule dispatch_native_heap)
    with rk rc show ?thesis
      by (simp add: wb split: option.splits del: remove_nth.simps)
  qed
qed

text \<open>
  \<^verbatim>\<open>Object3D.add\<close> on an object that is not among the children yet: whatever parent the
  object had before, the new parent is untouched and the object is pushed onto its child array.
\<close>

lemma obj3d_add_child:
  assumes run: "obj3d_add w (Obj p) (Obj c) = Inr w1"
    and pc: "p \<noteq> c" and ac: "a \<noteq> c"
    and parr: "array_of (heap w) (Obj p) = None"
    and kids: "get_prop (heap w) (Obj p) ''children'' = Inr (Obj a)"
    and arr: "heap w a = Some ar" "ctor ar = ''Array''"
    and new: "Obj c \<notin> set (elems ar)"
  shows "heap w1 p = heap w p \<and>
         (heap w1 a = Some ar \<or> heap w1 a = Some (ar\<lparr>elems := elems ar @ [Obj c]\<rparr>))"
proof -
  obtain flag where flag: "get_prop (heap w) (Obj c) ''isObject3D'' = Inr flag"
    using get_prop_Obj_total by blast
  from parr arr have pa: "a \<noteq> p" by auto
  show ?thesis
  proof (cases "truthy flag")
    case False
    with run pc flag have "w1 = w"
      by (simp add: obj3d_add_def del: get_prop.simps)
    with arr show ?thesis by simp
  next
    case True
    with run pc flag obtain par wa wb where
      old: "(if par = Null then Inr w
             else bindE (get_prop (heap w) par ''remove'') (\<lambda>f.
               if f = Native ''Object3D.remove''
               then obj3d_remove (log_call w f par [Obj c]) par (Obj c)
               else invoke_plain w f par [Obj c])) = Inr wa" and
      sp: "set_prop wa (Obj c) ''parent'' (Obj p) = Inr wb" and
      rest: "bindE (get_prop (heap wb) (Obj p) ''children'') (\<lambda>kids.
            case array_of (heap wb) kids of
              None \<Rightarrow> Inl TypeError
            | Some xs \<Rightarrow> dispatch_native (set_elems wb kids (xs @ [Obj c])) (Obj c) ''added'') = Inr w1"
      by (auto simp: obj3d_add_def simp del: get_prop.simps set_prop.simps array_of.simps
          elim!: bindE_InrE)
    have wa: "heap wa p = heap w p \<and> heap wa a = heap w a"
    proof (cases "par = Null")
      case True
      with old show ?thesis by simp
    next
      case False
      with old obtain f where
        body: "(if f = Native ''Object3D.remove''
                then obj3d_remove (log_call w f par [Obj c]) par (Obj c)
                else invoke_plain w f par [Obj c]) = Inr wa"
        by (auto simp del: get_prop.simps elim!: bindE_InrE)
      show ?thesis
      proof (cases "f = Native ''Object3D.remove''")
        case True
        with body have rm: "obj3d_remove (log_call w f par [Obj c]) par (Obj c) = Inr wa"
          by simp
        have hl: "heap (log_call w f par [Obj c]) = heap w" by (simp add: log_call_def)
        have "heap wa p = heap (log_call w f par [Obj c]) p"
          by (rule obj3d_remove_untouched [OF rm pc]) (use parr in \<open>simp add: hl\<close>)
        moreover have "heap wa a = heap (log_call w f par [Obj c]) a"
          by (rule obj3d_remove_untouched [OF rm ac]) (use arr new in \<open>simp add: hl\<close>)
        ultimately show ?thesis by (simp add: hl)
      next
        case False
        with body have "invoke_plain w f par [Obj c] = Inr wa" by simp
        from invoke_plain_heap [OF this] show ?thesis by simp
      qed
    qed
    from sp obtain co where
      wb: "wb = wa\<lparr>heap := (heap wa)(c \<mapsto> co\<lparr>own := AList.update ''parent'' (Obj p) (own co)\<rparr>)\<rparr>"
      by (rule set_prop_ObjE)
    have "get_prop (heap wb) (Obj p) ''children'' = get_prop (heap w) (Obj p) ''children''"
      by (rule get_prop_heap_eq) (use pc wa in \<open>simp add: wb\<close>)
    with kids have kb: "get_prop (heap wb) (Obj p) ''children'' = Inr (Obj a)"
      by (simp del: get_prop.simps)
    have ab: "array_of (heap wb) (Obj a) = Some (elems ar)"
      using arr ac wa by (simp add: wb)
    from rest have "dispatch_native (set_elems wb (Obj a) (elems ar @ [Obj c])) (Obj c) ''added'' = Inr w1"
      by (simp add: kb ab del: get_prop.simps array_of.simps set_elems.simps)
    then have "heap w1 = heap (set_elems wb (Obj a) (elems ar @ [Obj c]))"
      by (rule dispatch_native_heap)
    with arr ac pa pc wa show ?thesis
      by (simp add: wb)
  qed
qed

text \<open>\<^verbatim>\<open>Object3D.remove\<close>, by the position of the child in the child array.\<close>

lemma obj3d_remove_child:
  assumes run: "obj3d_remove w (Obj p) (Obj c) = Inr w1"
    and ac: "a \<noteq> c"
    and kids: "get_prop (heap w) (Obj p) ''children'' = Inr (Obj a)"
    and arr: "heap w a = Some ar" "ctor ar = ''Array''"
  shows "(index_of (elems ar) (Obj c) = -1 \<and> heap w1 = heap w) \<or>
         (\<exists>co. index_of (elems ar) (Obj c) \<noteq> -1 \<and> heap w c = Some co \<and>
            heap w1 = (heap w)(c \<mapsto> co\<lparr>own := AList.update ''parent'' Null (own co)\<rparr>,
                                a \<mapsto> ar\<lparr>elems := remove_nth (nat (index_of (elems ar) (Obj c))) (elems ar)\<rparr>))"
proof (cases "index_of (elems ar) (Obj c) = -1")
  case True
  with run kids arr have "w1 = w"
    by (simp add: obj3d_remove_def Let_def del: get_prop.simps)
  with True show ?thesis by simp
next
  case False
  with run kids arr obtain wb where
    sp: "set_prop w (Obj c) ''parent'' Null = Inr wb" and
    d: "dispatch_native (set_elems wb (Obj a)
          (remove_nth (nat (index_of (elems ar) (Obj c))) (elems ar))) (Obj c) ''removed'' = Inr w1"
    by (auto simp: obj3d_remove_def Let_def
        simp del: get_prop.simps set_prop.simps set_elems.simps remove_nth.simps elim!: bindE_InrE)
  from sp obtain co where co: "heap w c = Some co"
    and wb: "wb = w\<lparr>heap := (heap w)(c \<mapsto> co\<lparr>own := AList.update ''parent'' Null (own co)\<rparr>)\<rparr>"
    by (rule set_prop_ObjE)
  from d have "heap w1 = heap (set_elems wb (Obj a)
      (remove_nth (nat (index_of (elems ar) (Obj c))) (elems ar)))"
    by (rule dispatch_native_heap)
  also have "\<dots> = (heap w)(c \<mapsto> co\<lparr>own := AList.update ''parent'' Null (own co)\<rparr>,
       a \<mapsto> ar\<lparr>elems := remove_nth (nat (index_of (elems ar) (Obj c))) (elems ar)\<rparr>)"
    using arr ac by (simp add: wb del: remove_nth.simps)
  finally show ?thesis using co False by blast
qed

lemma call_method_add:
  assumes "call_method w (Obj p) ''add'' [Obj c] = Inr w1"
    and "get_prop (heap w) (Obj p) ''add'' = Inr (Native ''Object3D.add'')"
  shows "obj3d_add (log_call w (Native ''Object3D.add'') (Obj p) [Obj c]) (Obj p) (Obj c) = Inr w1"
  using assms by (simp add: call_method_def invoke_plain_def del: get_prop.simps)

lemma call_method_remove:
  assumes "call_method w (Obj p) ''remove'' [Obj c] = Inr w1"
    and "get_prop (heap w) (Obj p) ''remove'' = Inr (Native ''Object3D.remove'')"
  shows "obj3d_remove (log_call w (Native ''Object3D.remove'') (Obj p) [Obj c]) (Obj p) (Obj c) = Inr w1"
  using assms by (simp add: call_method_def invoke_plain_def del: get_prop.simps)


text \<open>
  A spatial child that was not among the children of its parent: appending pushes it onto the
  child array, removing splices it out again.
\<close>

lemma spatial_round_trip:
  assumes pc: "p \<noteq> c" and ac: "a \<noteq> c"
    and parr: "array_of (heap w) (Obj p) = None"
    and free: "attach_slot w (Obj p) (Obj c) = Inr None"
    and free1: "attach_slot w1 (Obj p) (Obj c) = Inr None"
    and add: "get_prop (heap w) (Obj p) ''add'' = Inr (Native ''Object3D.add'')"
    and remove: "get_prop (heap w) (Obj p) ''remove'' = Inr (Native ''Object3D.remove'')"
    and kids: "get_prop (heap w) (Obj p) ''children'' = Inr (Obj a)"
    and arr: "heap w a = Some ar" "ctor ar = ''Array''"
    and new: "Obj c \<notin> set (elems ar)"
    and app: "appendChild w (Obj p) (Obj c) = Inr w1"
    and rem: "removeChild w1 (Obj p) (Obj c) = Inr w2"
  shows "heap w2 p = heap w p \<and> heap w2 a = heap w a"
proof -
  let ?wl = "log_call w (Native ''Object3D.add'') (Obj p) [Obj c]"
  have hl: "heap ?wl = heap w" by (simp add: log_call_def)
  from parr arr have pa: "a \<noteq> p" by auto
  from app have "call_method w (Obj p) ''add'' [Obj c] = Inr w1"
    by (simp add: appendChild_def free)
  then have ad: "obj3d_add ?wl (Obj p) (Obj c) = Inr w1"
    using add by (rule call_method_add)
  have "heap w1 p = heap ?wl p \<and>
         (heap w1 a = Some ar \<or> heap w1 a = Some (ar\<lparr>elems := elems ar @ [Obj c]\<rparr>))"
    by (rule obj3d_add_child [OF ad pc ac])
       (use parr kids arr new in \<open>simp_all add: hl del: get_prop.simps array_of.simps\<close>)
  then have p1: "heap w1 p = heap w p"
    and a1': "heap w1 a = Some ar \<or> heap w1 a = Some (ar\<lparr>elems := elems ar @ [Obj c]\<rparr>)"
    by (simp_all add: hl)
  have slot1: "get_prop (heap w1) (Obj p) k = get_prop (heap w) (Obj p) k" for k
    by (rule get_prop_heap_eq) (rule p1)
  from a1' have "\<exists>ys. heap w1 a = Some (ar\<lparr>elems := ys\<rparr>) \<and>
      (ys = elems ar \<or> ys = elems ar @ [Obj c])"
  proof
    assume "heap w1 a = Some ar"
    then have "heap w1 a = Some (ar\<lparr>elems := elems ar\<rparr>)" by simp
    then show ?thesis by blast
  next
    assume "heap w1 a = Some (ar\<lparr>elems := elems ar @ [Obj c]\<rparr>)"
    then show ?thesis by blast
  qed
  then obtain ys where a1: "heap w1 a = Some (ar\<lparr>elems := ys\<rparr>)"
    and ys: "ys = elems ar \<or> ys = elems ar @ [Obj c]"
    by blast
  let ?wr = "log_call w1 (Native ''Object3D.remove'') (Obj p) [Obj c]"
  have hr: "heap ?wr = heap w1" by (simp add: log_call_def)
  from rem obtain wa where
    det: "call_method w1 (Obj p) ''remove'' [Obj c] = Inr wa" and
    dis: "dispose_child wa (Obj c) = Inr w2"
    by (auto simp: removeChild_def free1 elim!: bindE_InrE)
  from remove have "get_prop (heap w1) (Obj p) ''remove'' = Inr (Native ''Object3D.remove'')"
    by (simp only: slot1)
  with det have rm: "obj3d_remove ?wr (Obj p) (Obj c) = Inr wa"
    by (rule call_method_remove)
  have kr: "get_prop (heap ?wr) (Obj p) ''children'' = Inr (Obj a)"
    using kids by (simp add: hr slot1 del: get_prop.simps)
  have ar1: "heap ?wr a = Some (ar\<lparr>elems := ys\<rparr>)" "ctor (ar\<lparr>elems := ys\<rparr>) = ''Array''"
    using a1 arr by (simp_all add: hr)
  from obj3d_remove_child [OF rm ac kr ar1]
  have wa: "heap wa p = heap w1 p \<and> heap wa a = Some ar"
  proof (elim disjE exE conjE)
    assume "index_of (elems (ar\<lparr>elems := ys\<rparr>)) (Obj c) = -1" and h: "heap wa = heap ?wr"
    with ys new have "ys = elems ar"
      by (auto simp: index_of_snoc)
    with h a1 show ?thesis by (simp add: hr)
  next
    fix co
    assume found: "index_of (elems (ar\<lparr>elems := ys\<rparr>)) (Obj c) \<noteq> -1"
    assume h: "heap wa = (heap ?wr)(c \<mapsto> co\<lparr>own := AList.update ''parent'' Null (own co)\<rparr>,
        a \<mapsto> ar\<lparr>elems := ys\<rparr>\<lparr>elems := remove_nth (nat (index_of (elems (ar\<lparr>elems := ys\<rparr>)) (Obj c)))
          (elems (ar\<lparr>elems := ys\<rparr>))\<rparr>)"
    from ys show ?thesis
    proof
      assume "ys = elems ar"
      with new have "index_of ys (Obj c) = -1" by (simp add: index_of_absent)
      with found show ?thesis by simp
    next
      assume y: "ys = elems ar @ [Obj c]"
      with new have "index_of ys (Obj c) = int (length (elems ar))" by (simp add: index_of_snoc)
      with y have "remove_nth (nat (index_of ys (Obj c))) ys = elems ar" by simp
      with h pc pa show ?thesis by (simp add: hr del: remove_nth.simps)
    qed
  qed
  from dispose_child_heap [OF dis, of p] dispose_child_heap [OF dis, of a] pc ac wa p1 arr
  show ?thesis by simp
qed


text \<open>
  Claim C6, as stated, at a mesh (object 0) whose material slot holds a material (object 2): a
  second material (object 4) is appended and removed. Appending overwrites the slot, removing
  writes \<^verbatim>\<open>null\<close> into it; the material the slot held before is gone.
\<close>

theorem append_remove_clears_slot:
  "get_prop (heap mesh_with_material) (Obj 0) ''material'' = Inr (Obj 2) \<and>
   bindE (appendChild mesh_with_material (Obj 0) (Obj 4)) (\<lambda>w1.
     bindE (removeChild w1 (Obj 0) (Obj 4)) (\<lambda>w2. Inr (get_prop (heap w2) (Obj 0) ''material'')))
   = Inr (Inr Null)"
  by code_simp

text \<open>
  Claim C6, amended. Let \<^verbatim>\<open>appendChild(parent, child)\<close> and then
  \<^verbatim>\<open>removeChild(parent, child)\<close> return, for a child other than the parent. When the child
  uses an attach slot (the text of its \<^verbatim>\<open>attach\<close> is the key \<open>k\<close> of a defined property of
  the parent), the slot holds \<^verbatim>\<open>null\<close> afterwards and every other property of the parent, and
  every object other than parent and child, is as before: the slot is restored only if it held
  \<^verbatim>\<open>null\<close>. When the child is a spatial child at both calls (it uses no attach slot), the
  parent is a scene-graph object and no array, and the child is neither among the children of
  the parent nor the child array itself, the parent and its child array are exactly as before,
  whatever parent the child had before.
\<close>

theorem append_remove_round_trip:
  assumes pc: "p \<noteq> c"
    and app: "appendChild w (Obj p) (Obj c) = Inr w1"
    and rem: "removeChild w1 (Obj p) (Obj c) = Inr w2"
  shows "(attach_slot w (Obj p) (Obj c) = Inr (Some k) \<longrightarrow>
            (\<exists>po. heap w p = Some po \<and>
               heap w2 p = Some (po\<lparr>own := AList.update k Null (own po)\<rparr>) \<and>
               (\<forall>r. r \<noteq> p \<longrightarrow> r \<noteq> c \<longrightarrow> heap w2 r = heap w r))) \<and>
         (attach_slot w (Obj p) (Obj c) = Inr None \<and> attach_slot w1 (Obj p) (Obj c) = Inr None \<and>
          get_prop (heap w) (Obj p) ''add'' = Inr (Native ''Object3D.add'') \<and>
          get_prop (heap w) (Obj p) ''remove'' = Inr (Native ''Object3D.remove'') \<and>
          array_of (heap w) (Obj p) = None \<and>
          get_prop (heap w) (Obj p) ''children'' = Inr (Obj a) \<and> a \<noteq> c \<and>
          heap w a = Some ar \<and> ctor ar = ''Array'' \<and> Obj c \<notin> set (elems ar) \<longrightarrow>
            heap w2 p = heap w p \<and> heap w2 a = heap w a)"
proof (intro conjI impI)
  assume "attach_slot w (Obj p) (Obj c) = Inr (Some k)"
  then show "\<exists>po. heap w p = Some po \<and>
          heap w2 p = Some (po\<lparr>own := AList.update k Null (own po)\<rparr>) \<and>
          (\<forall>r. r \<noteq> p \<longrightarrow> r \<noteq> c \<longrightarrow> heap w2 r = heap w r)"
    using app rem by (rule attached_round_trip [OF pc])
next
  assume h: "attach_slot w (Obj p) (Obj c) = Inr None \<and> attach_slot w1 (Obj p) (Obj c) = Inr None \<and>
          get_prop (heap w) (Obj p) ''add'' = Inr (Native ''Object3D.add'') \<and>
          get_prop (heap w) (Obj p) ''remove'' = Inr (Native ''Object3D.remove'') \<and>
          array_of (heap w) (Obj p) = None \<and>
          get_prop (heap w) (Obj p) ''children'' = Inr (Obj a) \<and> a \<noteq> c \<and>
          heap w a = Some ar \<and> ctor ar = ''Array'' \<and> Obj c \<notin> set (elems ar)"
  then have free: "attach_slot w (Obj p) (Obj c) = Inr None"
    and free1: "attach_slot w1 (Obj p) (Obj c) = Inr None"
    and add: "get_prop (heap w) (Obj p) ''add'' = Inr (Native ''Object3D.add'')"
    and remove: "get_prop (heap w) (Obj p) ''remove'' = Inr (Native ''Object3D.remove'')"
    and parr: "array_of (heap w) (Obj p) = None"
    and kids: "get_prop (heap w) (Obj p) ''children'' = Inr (Obj a)"
    and ac: "a \<noteq> c"
    and arr: "heap w a = Some ar" "ctor ar = ''Array''"
    and new: "Obj c \<notin> set (elems ar)"
    by (simp_all del: get_prop.simps array_of.simps)
  from spatial_round_trip [OF pc ac parr free free1 add remove kids arr new app rem]
  show "heap w2 p = heap w p" and "heap w2 a = heap w a" by simp_all
qed


lemmas scene_defs =
  appendChild_def removeChild_def attach_slot_def dispose_child_def call_method_def
  invoke_plain_def log_call_def obj3d_add_def obj3d_remove_def dispatch_native_def
  empty_world_def object3d_def object3d_methods_def host_object_def
  array_object_def error_of_def strict_eq_def Let_def

theorem append_remove_round_trip_witness:
  "(\<exists>w1 w2. appendChild mesh_with_material (Obj 0) (Obj 4) = Inr w1 \<and>
      removeChild w1 (Obj 0) (Obj 4) = Inr w2 \<and>
      attach_slot mesh_with_material (Obj 0) (Obj 4) = Inr (Some ''material'') \<and>
      get_prop (heap w2) (Obj 0) ''material'' = Inr Null \<and>
      heap w2 1 = heap mesh_with_material 1) \<and>
   (\<exists>w1 w2. appendChild mesh_with_array_attach (Obj 0) (Obj 4) = Inr w1 \<and>
      removeChild w1 (Obj 0) (Obj 4) = Inr w2 \<and>
      attach_slot mesh_with_array_attach (Obj 0) (Obj 4) = Inr (Some ''material'') \<and>
      get_prop (heap w2) (Obj 0) ''material'' = Inr Null \<and>
      heap w2 1 = heap mesh_with_array_attach 1) \<and>
   (\<exists>w1 w2. appendChild nested_meshes (Obj 0) (Obj 4) = Inr w1 \<and>
      removeChild w1 (Obj 0) (Obj 4) = Inr w2 \<and>
      get_prop (heap nested_meshes) (Obj 4) ''parent'' = Inr (Obj 2) \<and>
      children_of nested_meshes (Obj 0) = Some [] \<and>
      children_of w1 (Obj 0) = Some [Obj 4] \<and>
      heap w2 0 = heap nested_meshes 0 \<and> heap w2 1 = heap nested_meshes 1)"
proof (intro conjI)
  have e: "error_of (bindE (appendChild mesh_with_material (Obj 0) (Obj 4)) (\<lambda>w1.
      removeChild w1 (Obj 0) (Obj 4))) = None"
    by code_simp
  then obtain w1 where app: "appendChild mesh_with_material (Obj 0) (Obj 4) = Inr w1"
    by (cases "appendChild mesh_with_material (Obj 0) (Obj 4)") (simp_all add: error_of_def)
  with e obtain w2 where rem: "removeChild w1 (Obj 0) (Obj 4) = Inr w2"
    by (cases "removeChild w1 (Obj 0) (Obj 4)") (simp_all add: error_of_def)
  have pc: "(0::nat) \<noteq> 4" by simp
  have slot: "attach_slot mesh_with_material (Obj 0) (Obj 4) = Inr (Some ''material'')"
    by code_simp
  from append_remove_round_trip [OF pc app rem, of "''material''"] slot
  obtain po where "heap w2 0 = Some (po\<lparr>own := AList.update ''material'' Null (own po)\<rparr>)"
    and "heap w2 1 = heap mesh_with_material 1"
    by auto
  then have "get_prop (heap w2) (Obj 0) ''material'' = Inr Null"
    and "heap w2 1 = heap mesh_with_material 1"
    by (simp_all add: update_conv')
  with app rem slot show "\<exists>w1 w2. appendChild mesh_with_material (Obj 0) (Obj 4) = Inr w1 \<and>
      removeChild w1 (Obj 0) (Obj 4) = Inr w2 \<and>
      attach_slot mesh_with_material (Obj 0) (Obj 4) = Inr (Some ''material'') \<and>
      get_prop (heap w2) (Obj 0) ''material'' = Inr Null \<and>
      heap w2 1 = heap mesh_with_material 1"
    by (intro exI [of _ w1] exI [of _ w2] conjI)
next
  have e: "error_of (bindE (appendChild mesh_with_array_attach (Obj 0) (Obj 4)) (\<lambda>w1.
      removeChild w1 (Obj 0) (Obj 4))) = None"
    by code_simp
  then obtain w1 where app: "appendChild mesh_with_array_attach (Obj 0) (Obj 4) = Inr w1"
    by (cases "appendChild mesh_with_array_attach (Obj 0) (Obj 4)") (simp_all add: error_of_def)
  with e obtain w2 where rem: "removeChild w1 (Obj 0) (Obj 4) = Inr w2"
    by (cases "removeChild w1 (Obj 0) (Obj 4)") (simp_all add: error_of_def)
  have pc: "(0::nat) \<noteq> 4" by simp
  have slot: "attach_slot mesh_with_array_attach (Obj 0) (Obj 4) = Inr (Some ''material'')"
    by code_simp
  from append_remove_round_trip [OF pc app rem, of "''material''"] slot
  obtain po where "heap w2 0 = Some (po\<lparr>own := AList.update ''material'' Null (own po)\<rparr>)"
    and "heap w2 1 = heap mesh_with_array_attach 1"
    by auto
  then have "get_prop (heap w2) (Obj 0) ''material'' = Inr Null"
    and "heap w2 1 = heap mesh_with_array_attach 1"
    by (simp_all add: update_conv')
  with app rem slot show "\<exists>w1 w2. appendChild mesh_with_array_attach (Obj 0) (Obj 4) = Inr w1 \<and>
      removeChild w1 (Obj 0) (Obj 4) = Inr w2 \<and>
      attach_slot mesh_with_array_attach (Obj 0) (Obj 4) = Inr (Some ''material'') \<and>
      get_prop (heap w2) (Obj 0) ''material'' = Inr Null \<and>
      heap w2 1 = heap mesh_with_array_attach 1"
    by (intro exI [of _ w1] exI [of _ w2] conjI)
next
  have e: "error_of (bindE (appendChild nested_meshes (Obj 0) (Obj 4)) (\<lambda>w1.
      removeChild w1 (Obj 0) (Obj 4))) = None"
    by (simp add: scene_defs nested_meshes_def
        cong: bindE_weak_cong if_weak_cong let_weak_cong option.case_cong_weak sum.case_cong_weak
          prod.case_cong_weak list.case_cong_weak)
  then obtain w1 where app: "appendChild nested_meshes (Obj 0) (Obj 4) = Inr w1"
    by (cases "appendChild nested_meshes (Obj 0) (Obj 4)") (simp_all add: error_of_def)
  with e obtain w2 where rem: "removeChild w1 (Obj 0) (Obj 4) = Inr w2"
    by (cases "removeChild w1 (Obj 0) (Obj 4)") (simp_all add: error_of_def)
  have pc: "(0::nat) \<noteq> 4" by simp
  have free: "attach_slot nested_meshes (Obj 0) (Obj 4) = Inr None" by code_simp
  have "bindE (appendChild nested_meshes (Obj 0) (Obj 4)) (\<lambda>w1.
      Inr (attach_slot w1 (Obj 0) (Obj 4), children_of w1 (Obj 0))) = Inr (Inr None, Some [Obj 4])"
    by (simp add: scene_defs nested_meshes_def children_of_def
        cong: bindE_weak_cong if_weak_cong let_weak_cong option.case_cong_weak sum.case_cong_weak
          prod.case_cong_weak list.case_cong_weak)
  with app have free1: "attach_slot w1 (Obj 0) (Obj 4) = Inr None"
    and kids1: "children_of w1 (Obj 0) = Some [Obj 4]"
    by simp_all
  have add: "get_prop (heap nested_meshes) (Obj 0) ''add'' = Inr (Native ''Object3D.add'')" by code_simp
  have remove: "get_prop (heap nested_meshes) (Obj 0) ''remove'' = Inr (Native ''Object3D.remove'')"
    by code_simp
  have parr: "array_of (heap nested_meshes) (Obj 0) = None" by code_simp
  have kids: "get_prop (heap nested_meshes) (Obj 0) ''children'' = Inr (Obj 1)" by code_simp
  have arr: "heap nested_meshes 1 = Some (array_object [])"
    by (simp add: nested_meshes_def empty_world_def)
  have par: "get_prop (heap nested_meshes) (Obj 4) ''parent'' = Inr (Obj 2)" by code_simp
  have before: "children_of nested_meshes (Obj 0) = Some []" by code_simp
  from append_remove_round_trip [OF pc app rem, of _ 1 "array_object []"]
    free free1 add remove parr kids arr
  have "heap w2 0 = heap nested_meshes 0 \<and> heap w2 1 = heap nested_meshes 1"
    by (simp add: array_object_def del: get_prop.simps array_of.simps)
  then have "heap w2 0 = heap nested_meshes 0" and "heap w2 1 = heap nested_meshes 1"
    by simp_all
  with app rem par before kids1 show "\<exists>w1 w2. appendChild nested_meshes (Obj 0) (Obj 4) = Inr w1 \<and>
      removeChild w1 (Obj 0) (Obj 4) = Inr w2 \<and>
      get_prop (heap nested_meshes) (Obj 4) ''parent'' = Inr (Obj 2) \<and>
      children_of nested_meshes (Obj 0) = Some [] \<and>
      children_of w1 (Obj 0) = Some [Obj 4] \<and>
      heap w2 0 = heap nested_meshes 0 \<and> heap w2 1 = heap nested_meshes 1"
    by (intro exI [of _ w1] exI [of _ w2] conjI)
qed

section \<open>Reordering children: the position of the child\<close>

lemma js_slice_prefix: "js_slice xs 0 (int i) = take i xs"
  by (simp add: js_slice_def rel_index_def min_def)

lemma js_slice_from_suffix: "js_slice_from xs (int i) = drop i xs"
  by (simp add: js_slice_from_def rel_index_def min_def)

text \<open>
  With \<^verbatim>\<open>beforeChild\<close> at position \<open>i\<close> of the child array, \<^verbatim>\<open>insertBefore\<close> leaves a
  new child array with the child at position \<open>i\<close>, immediately before \<^verbatim>\<open>beforeChild\<close>,
  and its last call dispatches an \<^verbatim>\<open>added\<close> event on the child. Nothing is taken out of
  the array, so a child that was in it already is in it twice.
\<close>

lemma insertBefore_places_before:
  assumes run: "insertBefore w (Obj p) (Obj c) beforeChild = Inr w'"
    and kids: "children_of w (Obj p) = Some xs"
    and found: "index_of xs beforeChild = int i"
    and p: "p < nxt w" and c: "c < nxt w"
    and ev: "get_prop (heap w) (Obj c) ''dispatchEvent'' = Inr (Native ''EventDispatcher.dispatchEvent'')"
  shows "children_of w' (Obj p) = Some (take i xs @ [Obj c] @ drop i xs) \<and>
         calls w' = calls w @ [Call (Native ''EventDispatcher.dispatchEvent'') (Obj c) [Obj (Suc (nxt w))]] \<and>
         get_prop (heap w') (Obj (Suc (nxt w))) ''type'' = Inr (Str ''added'')"
proof -
  from run obtain w1 where sp: "set_prop w (Obj c) ''parent'' (Obj p) = Inr w1"
    by (auto simp: insertBefore_def simp del: set_prop.simps elim!: bindE_InrE)
  then obtain co where co: "heap w c = Some co"
    and w1: "w1 = w\<lparr>heap := (heap w)(c \<mapsto> co\<lparr>own := AList.update ''parent'' (Obj p) (own co)\<rparr>)\<rparr>"
    by (rule set_prop_ObjE)
  have "''children'' \<noteq> ''parent''" by simp
  from set_prop_keeps [OF sp this [symmetric]]
  have k1: "get_prop (heap w1) (Obj p) ''children'' = get_prop (heap w) (Obj p) ''children''"
    by (rule conjunct2 [THEN spec])
  from kids obtain a where ka: "get_prop (heap w) (Obj p) ''children'' = Inr (Obj a)"
    and aa: "array_of (heap w) (Obj a) = Some xs"
    by (auto simp: children_of_def simp del: get_prop.simps split: sum.splits elim: array_of.elims)
  have a1: "array_of (heap w1) (Obj a) = Some xs"
    using aa co by (auto simp: w1 split: option.splits if_splits)
  obtain po where po: "heap w1 p = Some po"
    using ka k1 by (cases "heap w1 p") auto
  have "''dispatchEvent'' \<noteq> ''parent''" by simp
  from set_prop_keeps [OF sp this [symmetric]]
  have e1: "get_prop (heap w1) (Obj c) ''dispatchEvent'' = get_prop (heap w) (Obj c) ''dispatchEvent''"
    by (rule conjunct2 [THEN spec])
  have n1: "nxt w1 = nxt w" by (simp add: w1)
  let ?ys = "take i xs @ [Obj c] @ drop i xs"
  let ?h = "(heap w1)(nxt w \<mapsto> array_object ?ys,
               p \<mapsto> po\<lparr>own := AList.update ''children'' (Obj (nxt w)) (own po)\<rparr>,
               Suc (nxt w) \<mapsto> plain_object [(''type'', Str ''added'')])"
  have ec: "get_prop ?h (Obj c) ''dispatchEvent'' = Inr (Native ''EventDispatcher.dispatchEvent'')"
  proof (cases "c = p")
    case True
    with ev e1 po c show ?thesis
      by (auto simp: update_conv' split: option.splits)
  next
    case False
    with ev e1 c show ?thesis by auto
  qed
  from run have "w' = log_call (w1\<lparr>heap := ?h, nxt := Suc (Suc (nxt w))\<rparr>)
      (Native ''EventDispatcher.dispatchEvent'') (Obj c) [Obj (Suc (nxt w))]"
    using p ec [unfolded w1] co k1 [unfolded w1] a1 [unfolded w1] po [unfolded w1]
    by (simp add: insertBefore_def ka found js_slice_prefix js_slice_from_suffix alloc_def w1
        call_method_def invoke_plain_def
        del: get_prop.simps array_of.simps)
  then have "heap w' = ?h" and "calls w' = calls w @
      [Call (Native ''EventDispatcher.dispatchEvent'') (Obj c) [Obj (Suc (nxt w))]]"
    by (simp_all add: log_call_def w1)
  with p show ?thesis
    by (simp add: children_of_def update_conv' array_object_def plain_object_def)
qed

section \<open>Unmounting\<close>

lemmas run_defs =
  render_def init_root_def infer_size_def roots_get_def opt_get_def alloc_def plain_object_def
  array_object_def host_object_def object3d_def object3d_methods_def new_renderer_def new_camera_def
  new_scene_def events_object_def events_connect_def events_disconnect_def connect_def disconnect_def
  EVENT_TYPES_def call_method_def invoke_plain_def log_call_def spread_def or_zero_def lookup_def
  page_def with_events_def empty_world_def canvas_object_def
  unmountComponentAtNode_def unmount_callback_def disconnect_events_def clean_up_renderer_def error_of_def

text \<open>
  Claim C1, at the article's own use: \<^verbatim>\<open>render(element, canvas, { size, events })\<close>, then
  \<^verbatim>\<open>unmountComponentAtNode(canvas)\<close>. \<^verbatim>\<open>render\<close> keeps the renderer in \<^verbatim>\<open>state.gl\<close>; the
  unmount callback reads \<^verbatim>\<open>state.renderer\<close>, which is undefined. So the callback disconnects
  the events and then raises a TypeError at \<^verbatim>\<open>state.renderer.setAnimationLoop(null)\<close>: the
  loop is never stopped, the context never released, and the canvas stays in \<^verbatim>\<open>roots\<close>.
\<close>

theorem unmount_reads_missing_renderer:
  "bindE (render page (Str ''element'') (Obj 0) with_events) (\<lambda>(state, w).
     Inr (get_prop (heap w) state ''gl'', get_prop (heap w) state ''renderer'',
          error_of (unmountComponentAtNode w (Obj 0)),
          bindE (disconnect_events w (Obj 0) state) (\<lambda>w1.
            Inr (error_of (clean_up_renderer w1 state), roots_get w1 (Obj 0),
                 filter (\<lambda>c. case c of Call f this args \<Rightarrow> f = Native ''WebGLRenderer.setAnimationLoop'')
                   (calls w1)))))
   = Inr (Inr (Obj 5), Inr Undefined, Some TypeError,
          Inr (Some TypeError, Obj 22,
               [Call (Native ''WebGLRenderer.setAnimationLoop'') (Obj 5) [Closure ''animationLoop'' (Obj 3)]]))"
  by (simp add: run_defs Let_def
      cong: bindE_weak_cong if_weak_cong let_weak_cong option.case_cong_weak sum.case_cong_weak
        prod.case_cong_weak list.case_cong_weak)

end
